theory Spec2Isabelle
  imports Complex_Main "HOL-Library.Sublist"
begin

section \<open>The circuits: Merkle membership and withdrawal\<close>

text \<open>
  Signals of a circom circuit are elements of the proving system's prime field. The
  development is carried out over an arbitrary integral domain \<open>'f\<close> (every field is
  one), which is all the multiplexer's booleanity constraint needs. circomlib's
  \<open>Poseidon(2)\<close> lives outside the repository and is a parameter \<open>H\<close>: the hash of its
  two inputs, in order. A signal assigned with \<open><==\<close> is a defined value; a constraint
  written with \<open>===\<close> is a boolean the prover has to make true.
\<close>

type_synonym 'f Poseidon2 = "'f \<Rightarrow> 'f \<Rightarrow> 'f"

text \<open>\<open>DualMux\<close>: the constraint \<open>s * (1 - s) === 0\<close> and the two outputs.\<close>

definition DualMux_constraint :: "'f::idom \<Rightarrow> bool" where
  "DualMux_constraint s = (s * (1 - s) = 0)"

definition DualMux_out0 :: "'f::idom \<Rightarrow> 'f \<Rightarrow> 'f \<Rightarrow> 'f" where
  "DualMux_out0 in0 in1 s = (in1 - in0) * s + in0"

definition DualMux_out1 :: "'f::idom \<Rightarrow> 'f \<Rightarrow> 'f \<Rightarrow> 'f" where
  "DualMux_out1 in0 in1 s = (in0 - in1) * s + in1"

text \<open>\<open>HashLeftRight\<close>: \<open>hasher.inputs[0] <== left\<close>, \<open>hasher.inputs[1] <== right\<close>.\<close>

definition HashLeftRight :: "'f Poseidon2 \<Rightarrow> 'f \<Rightarrow> 'f \<Rightarrow> 'f" where
  "HashLeftRight H left right = H left right"

text \<open>
  \<open>MerkleTreeChecker(levels)\<close>. The signal array \<open>levelHashes[levels + 1]\<close>:
  \<open>levelHashes[0] <== leaf\<close>, and \<open>levelHashes[i + 1]\<close> is the hash of the two outputs of
  the \<open>i\<close>-th selector, whose inputs are \<open>levelHashes[i]\<close>, \<open>pathElements[i]\<close> and
  \<open>pathIndices[i]\<close>.
\<close>

fun levelHashes :: "'f::idom Poseidon2 \<Rightarrow> 'f \<Rightarrow> 'f list \<Rightarrow> 'f list \<Rightarrow> nat \<Rightarrow> 'f" where
  "levelHashes H leaf pathElements pathIndices 0 = leaf"
| "levelHashes H leaf pathElements pathIndices (Suc i) =
     HashLeftRight H
       (DualMux_out0 (levelHashes H leaf pathElements pathIndices i) (pathElements ! i) (pathIndices ! i))
       (DualMux_out1 (levelHashes H leaf pathElements pathIndices i) (pathElements ! i) (pathIndices ! i))"

text \<open>
  The circuit accepts when every selector's constraint holds (one per loop iteration
  \<open>i < levels\<close>) and \<open>root === levelHashes[levels]\<close> (the signal \<open>root\<close> is written
  \<open>root'\<close>: \<open>root\<close> is a constant of the library). The two input arrays have exactly
  \<open>levels\<close> entries in the circuit; the theorems below assume those lengths.
\<close>

definition MerkleTreeChecker ::
  "'f::idom Poseidon2 \<Rightarrow> nat \<Rightarrow> 'f \<Rightarrow> 'f \<Rightarrow> 'f list \<Rightarrow> 'f list \<Rightarrow> bool" where
  "MerkleTreeChecker H levels leaf root' pathElements pathIndices =
     (list_all (\<lambda>i. DualMux_constraint (pathIndices ! i)) [0..<levels] \<and>
      root' = levelHashes H leaf pathElements pathIndices levels)"

text \<open>
  \<open>Withdraw(levels)\<close>. \<open>commitment\<close> is the output of \<open>commitmentHasher\<close>, whose inputs
  are \<open>amount\<close> then \<open>secret\<close>; \<open>nullifierHasher\<close> takes \<open>commitment\<close> then \<open>secret\<close>. The
  public input \<open>recipient\<close> occurs in no constraint.
\<close>

definition Withdraw_commitment :: "'f Poseidon2 \<Rightarrow> 'f \<Rightarrow> 'f \<Rightarrow> 'f" where
  "Withdraw_commitment H amount secret = H amount secret"

definition Withdraw_nullifierHasher_out :: "'f Poseidon2 \<Rightarrow> 'f \<Rightarrow> 'f \<Rightarrow> 'f" where
  "Withdraw_nullifierHasher_out H amount secret = H (Withdraw_commitment H amount secret) secret"

definition Withdraw ::
  "'f::idom Poseidon2 \<Rightarrow> nat \<Rightarrow> 'f \<Rightarrow> 'f \<Rightarrow> 'f \<Rightarrow> 'f \<Rightarrow> 'f \<Rightarrow> 'f list \<Rightarrow> 'f list \<Rightarrow> bool" where
  "Withdraw H levels root' nullifierHash recipient amount secret pathElements pathIndices =
     (Withdraw_nullifierHasher_out H amount secret = nullifierHash \<and>
      MerkleTreeChecker H levels (Withdraw_commitment H amount secret) root' pathElements pathIndices)"

text \<open>
  The specification's reading of the Merkle check: fold the path bottom-up; at each
  level the direction bit orders the current hash and the sibling (0: current is the
  left child, 1: current is the right child), and the ordered pair is hashed.
\<close>

definition fold_step :: "'f::idom Poseidon2 \<Rightarrow> 'f \<Rightarrow> 'f \<times> 'f \<Rightarrow> 'f" where
  "fold_step H current sb = (if snd sb = 0 then H current (fst sb) else H (fst sb) current)"

definition fold_path :: "'f::idom Poseidon2 \<Rightarrow> 'f \<Rightarrow> 'f list \<Rightarrow> 'f list \<Rightarrow> 'f" where
  "fold_path H leaf P I = foldl (fold_step H) leaf (zip P I)"

definition is_bit :: "'f::idom \<Rightarrow> bool" where
  "is_bit b = (b = 0 \<or> b = 1)"

section \<open>Numbers as text\<close>

text \<open>
  A template literal \<open>${n}\<close> of a number that holds a non-negative safe integer is its
  decimal expansion without leading zeros; of a negative one, the same after a minus
  sign.
\<close>

definition digit_char :: "nat \<Rightarrow> char" where
  "digit_char d = ''0123456789'' ! d"

fun decimal :: "nat \<Rightarrow> string" where
  "decimal n = (if n < 10 then [digit_char n] else decimal (n div 10) @ [digit_char (n mod 10)])"

declare decimal.simps [simp del]

definition Number_toString :: "int \<Rightarrow> string" where
  "Number_toString n = (if n < 0 then CHR ''-'' # decimal (nat (- n)) else decimal (nat n))"

section \<open>Polling with exponential backoff\<close>

text \<open>
  JavaScript numbers that hold delays are modelled as reals (rounding is not
  modelled); \<open>maxAttempts\<close> is a natural number. \<open>Partial<PollingOptions>\<close> has every
  field optional, and \<open>{ ...DEFAULT_OPTIONS, ...options }\<close> takes the fields that are
  present.
\<close>

record PollingOptions =
  initialDelayMs :: real
  maxDelayMs :: real
  maxAttempts :: nat
  backoffMultiplier :: real

record Partial_PollingOptions =
  opt_initialDelayMs :: "real option"
  opt_maxDelayMs :: "real option"
  opt_maxAttempts :: "nat option"
  opt_backoffMultiplier :: "real option"

definition DEFAULT_OPTIONS :: PollingOptions where
  "DEFAULT_OPTIONS =
     \<lparr>initialDelayMs = 500, maxDelayMs = 10000, maxAttempts = 60, backoffMultiplier = 3 / 2\<rparr>"

definition spread_options :: "PollingOptions \<Rightarrow> Partial_PollingOptions \<Rightarrow> PollingOptions" where
  "spread_options d options =
     \<lparr>initialDelayMs = (case opt_initialDelayMs options of Some v \<Rightarrow> v | None \<Rightarrow> initialDelayMs d),
      maxDelayMs = (case opt_maxDelayMs options of Some v \<Rightarrow> v | None \<Rightarrow> maxDelayMs d),
      maxAttempts = (case opt_maxAttempts options of Some v \<Rightarrow> v | None \<Rightarrow> maxAttempts d),
      backoffMultiplier =
        (case opt_backoffMultiplier options of Some v \<Rightarrow> v | None \<Rightarrow> backoffMultiplier d)\<rparr>"

text \<open>
  The probe \<open>fn\<close> is asynchronous and effectful: its \<open>k\<close>-th call (counting from 0)
  either resolves to a value (\<open>Inr\<close>) or throws; a thrown value is represented by the
  message of the \<open>Error\<close> it is or is wrapped into (\<open>Inl\<close>). A run of a polling function
  is what it returns or throws, together with the probe calls and sleeps it made, in
  order.
\<close>

datatype poll_event = Probe nat | Sleep real

record 'a poll_run =
  outcome :: "string + 'a"
  trace :: "poll_event list"

definition next_delay :: "PollingOptions \<Rightarrow> real \<Rightarrow> real" where
  "next_delay opts delay = min (delay * backoffMultiplier opts) (maxDelayMs opts)"

text \<open>
  The message of the final \<open>throw\<close> of \<open>pollWithBackoff\<close>:
  \<open>lastError?.message || "none"\<close> is \<open>"none"\<close> when no error was seen and also when the
  last error's message is the empty string.
\<close>

definition timeout_message :: "nat \<Rightarrow> string option \<Rightarrow> string" where
  "timeout_message n lastError =
     ''Polling timed out after '' @ Number_toString (int n) @ '' attempts. Last error: '' @
     (case lastError of None \<Rightarrow> ''none'' | Some m \<Rightarrow> if m = [] then ''none'' else m)"

function pollWithBackoff_loop ::
  "(nat \<Rightarrow> string + 'a) \<Rightarrow> ('a \<Rightarrow> bool) \<Rightarrow> PollingOptions \<Rightarrow> nat \<Rightarrow> real \<Rightarrow> string option \<Rightarrow>
   poll_event list \<Rightarrow> 'a poll_run" where
  "pollWithBackoff_loop fn isDone opts attempt delay lastError tr =
     (if attempt < maxAttempts opts then
        (case fn attempt of
           Inr result \<Rightarrow>
             if isDone result then \<lparr>outcome = Inr result, trace = tr @ [Probe attempt]\<rparr>
             else pollWithBackoff_loop fn isDone opts (Suc attempt) (next_delay opts delay)
                    lastError (tr @ [Probe attempt, Sleep delay])
         | Inl error \<Rightarrow>
             pollWithBackoff_loop fn isDone opts (Suc attempt) (next_delay opts delay)
               (Some error) (tr @ [Probe attempt, Sleep delay]))
      else \<lparr>outcome = Inl (timeout_message (maxAttempts opts) lastError), trace = tr\<rparr>)"
  by pat_completeness auto
termination
  by (relation "measure (\<lambda>(fn, isDone, opts, attempt, delay, lastError, tr). maxAttempts opts - attempt)")
    auto

declare pollWithBackoff_loop.simps [simp del]

definition pollWithBackoff ::
  "(nat \<Rightarrow> string + 'a) \<Rightarrow> ('a \<Rightarrow> bool) \<Rightarrow> Partial_PollingOptions \<Rightarrow> 'a poll_run" where
  "pollWithBackoff fn isDone options =
     (let opts = spread_options DEFAULT_OPTIONS options
      in pollWithBackoff_loop fn isDone opts 0 (initialDelayMs opts) None [])"

text \<open>
  \<open>createPollingController\<close>: a closure over the flag \<open>aborted\<close>, initially false, with
  \<open>abort\<close>, \<open>isAborted\<close> and \<open>reset\<close>. Code outside the polling function calls \<open>abort\<close> and
  \<open>reset\<close>; in the single-threaded runtime such calls run only while the polling
  function is suspended in an \<open>await\<close>: on the probe or on the sleep of an iteration.
\<close>

datatype controller_call = Abort | Reset

definition createPollingController :: bool where
  "createPollingController = False"

fun controller_apply :: "bool \<Rightarrow> controller_call \<Rightarrow> bool" where
  "controller_apply aborted Abort = True"
| "controller_apply aborted Reset = False"

definition isAborted :: "bool \<Rightarrow> bool" where
  "isAborted aborted = aborted"

record controller_schedule =
  during_probe :: "nat \<Rightarrow> controller_call list"
  during_sleep :: "nat \<Rightarrow> controller_call list"

definition timeout_message_abortable :: "nat \<Rightarrow> string" where
  "timeout_message_abortable n =
     ''Polling timed out after '' @ Number_toString (int n) @ '' attempts''"

function pollWithBackoffAbortable_loop ::
  "(nat \<Rightarrow> string + 'a) \<Rightarrow> ('a \<Rightarrow> bool) \<Rightarrow> controller_schedule \<Rightarrow> PollingOptions \<Rightarrow> nat \<Rightarrow> real \<Rightarrow>
   bool \<Rightarrow> poll_event list \<Rightarrow> 'a poll_run" where
  "pollWithBackoffAbortable_loop fn isDone sched opts attempt delay aborted tr =
     (if attempt < maxAttempts opts then
        if isAborted aborted then \<lparr>outcome = Inl ''Polling aborted'', trace = tr\<rparr>
        else
          let aborted1 = foldl controller_apply aborted (during_probe sched attempt);
              aborted2 = foldl controller_apply aborted1 (during_sleep sched attempt)
          in (case fn attempt of
                Inr result \<Rightarrow>
                  if isDone result then \<lparr>outcome = Inr result, trace = tr @ [Probe attempt]\<rparr>
                  else pollWithBackoffAbortable_loop fn isDone sched opts (Suc attempt)
                         (next_delay opts delay) aborted2 (tr @ [Probe attempt, Sleep delay])
              | Inl error \<Rightarrow>
                  if isAborted aborted1
                  then \<lparr>outcome = Inl ''Polling aborted'', trace = tr @ [Probe attempt]\<rparr>
                  else pollWithBackoffAbortable_loop fn isDone sched opts (Suc attempt)
                         (next_delay opts delay) aborted2 (tr @ [Probe attempt, Sleep delay]))
      else \<lparr>outcome = Inl (timeout_message_abortable (maxAttempts opts)), trace = tr\<rparr>)"
  by pat_completeness auto
termination
  by (relation "measure (\<lambda>(fn, isDone, sched, opts, attempt, delay, aborted, tr).
        maxAttempts opts - attempt)") auto

declare pollWithBackoffAbortable_loop.simps [simp del]

text \<open>
  The controller is created by the caller, who may have aborted it before polling
  starts: its flag at the call is the argument \<open>aborted0\<close>.
\<close>

definition pollWithBackoffAbortable ::
  "(nat \<Rightarrow> string + 'a) \<Rightarrow> ('a \<Rightarrow> bool) \<Rightarrow> bool \<Rightarrow> controller_schedule \<Rightarrow> Partial_PollingOptions \<Rightarrow>
   'a poll_run" where
  "pollWithBackoffAbortable fn isDone aborted0 sched options =
     (let opts = spread_options DEFAULT_OPTIONS options
      in pollWithBackoffAbortable_loop fn isDone sched opts 0 (initialDelayMs opts) aborted0 [])"


primrec backoff_delay :: "PollingOptions \<Rightarrow> nat \<Rightarrow> real" where
  "backoff_delay opts 0 = initialDelayMs opts"
| "backoff_delay opts (Suc i) = next_delay opts (backoff_delay opts i)"

primrec failed_rounds :: "PollingOptions \<Rightarrow> nat \<Rightarrow> poll_event list" where
  "failed_rounds opts 0 = []"
| "failed_rounds opts (Suc k) = failed_rounds opts k @ [Probe k, Sleep (backoff_delay opts k)]"

primrec last_error :: "(nat \<Rightarrow> string + 'a) \<Rightarrow> nat \<Rightarrow> string option" where
  "last_error fn 0 = None"
| "last_error fn (Suc k) = (case fn k of Inl e \<Rightarrow> Some e | Inr v \<Rightarrow> last_error fn k)"

primrec controller_at :: "controller_schedule \<Rightarrow> bool \<Rightarrow> nat \<Rightarrow> bool" where
  "controller_at sched aborted0 0 = aborted0"
| "controller_at sched aborted0 (Suc k) =
     foldl controller_apply
       (foldl controller_apply (controller_at sched aborted0 k) (during_probe sched k))
       (during_sleep sched k)"

definition round_continues ::
  "(nat \<Rightarrow> string + 'a) \<Rightarrow> ('a \<Rightarrow> bool) \<Rightarrow> controller_schedule \<Rightarrow> bool \<Rightarrow> nat \<Rightarrow> bool" where
  "round_continues fn isDone sched aborted0 j =
     (\<not> isAborted (controller_at sched aborted0 j) \<and>
      (case fn j of
         Inr v \<Rightarrow> \<not> isDone v
       | Inl e \<Rightarrow> \<not> isAborted (foldl controller_apply (controller_at sched aborted0 j)
                     (during_probe sched j))))"

section \<open>Strings and the patterns of the import parser\<close>

text \<open>
  A JavaScript string is modelled as a list of characters (code units below 256).
  \<open>isWhiteSpace\<close> is what \<open>\s\<close> and \<open>trim\<close> remove among those: TAB, LF, VT, FF, CR,
  space and the no-break space. \<open>isHexDigit\<close> is the class \<open>[a-fA-F0-9]\<close>, \<open>isDigit\<close> is
  \<open>\d\<close>.
\<close>

definition isWhiteSpace :: "char \<Rightarrow> bool" where
  "isWhiteSpace c =
     (c \<in> set [CHR 0x09, CHR 0x0A, CHR 0x0B, CHR 0x0C, CHR 0x0D, CHR 0x20, CHR 0xA0])"

definition isHexDigit :: "char \<Rightarrow> bool" where
  "isHexDigit c = (c \<in> set ''0123456789abcdefABCDEF'')"

definition isDigit :: "char \<Rightarrow> bool" where
  "isDigit c = (c \<in> set ''0123456789'')"

definition trim :: "string \<Rightarrow> string" where
  "trim s = rev (dropWhile isWhiteSpace (rev (dropWhile isWhiteSpace s)))"

text \<open>
  Letter case. Under the \<open>i\<close> flag a pattern character and an input character match
  when their canonical (upper-case) forms agree; for the ASCII characters of the
  patterns below only the two ASCII case variants do, so canonicalisation is modelled
  on ASCII letters and is the identity elsewhere. \<open>toLowerCase\<close> is applied by the
  parser only to captured hexadecimal digits and is modelled on ASCII letters as well.
\<close>

definition ascii_upper :: "char \<Rightarrow> char" where
  "ascii_upper c =
     (case map_of (zip ''abcdefghijklmnopqrstuvwxyz'' ''ABCDEFGHIJKLMNOPQRSTUVWXYZ'') c of
        Some u \<Rightarrow> u | None \<Rightarrow> c)"

definition ascii_lower :: "char \<Rightarrow> char" where
  "ascii_lower c =
     (case map_of (zip ''ABCDEFGHIJKLMNOPQRSTUVWXYZ'' ''abcdefghijklmnopqrstuvwxyz'') c of
        Some l \<Rightarrow> l | None \<Rightarrow> c)"

definition toLowerCase :: "string \<Rightarrow> string" where
  "toLowerCase s = map ascii_lower s"

text \<open>
  \<open>match_ci p t\<close>: the literal \<open>p\<close> matched case-insensitively at the start of \<open>t\<close>;
  the result is the rest of \<open>t\<close>.
\<close>

fun match_ci :: "string \<Rightarrow> string \<Rightarrow> string option" where
  "match_ci [] t = Some t"
| "match_ci (p # ps) [] = None"
| "match_ci (p # ps) (c # cs) = (if ascii_upper c = ascii_upper p then match_ci ps cs else None)"

text \<open>\<open>([a-fA-F0-9]{64})\<close> at the start of \<open>t\<close>: the captured 64 characters.\<close>

definition hex64 :: "string \<Rightarrow> string option" where
  "hex64 t = (if 64 \<le> length t \<and> list_all isHexDigit (take 64 t) then Some (take 64 t) else None)"

text \<open>
  The three patterns, matched at the start of \<open>t\<close>, each returning its capture group:
  \<open>/Secret:\s*([a-fA-F0-9]{64})/i\<close>, \<open>/Commitment:\s*([a-fA-F0-9]{64})/i\<close> and
  \<open>/Amount:\s*(\d+)\s*lamports/i\<close>. The greedy quantifiers are followed by classes
  disjoint from their own (white space before hexadecimal digits or digits; digits
  before white space or the letter l), so giving characters back can never turn a
  failed match into a successful one, and the longest run is the only candidate.
\<close>

definition secret_re_at :: "string \<Rightarrow> string option" where
  "secret_re_at t =
     (case match_ci ''Secret:'' t of None \<Rightarrow> None | Some r \<Rightarrow> hex64 (dropWhile isWhiteSpace r))"

definition commitment_re_at :: "string \<Rightarrow> string option" where
  "commitment_re_at t =
     (case match_ci ''Commitment:'' t of None \<Rightarrow> None
      | Some r \<Rightarrow> hex64 (dropWhile isWhiteSpace r))"

definition amount_re_at :: "string \<Rightarrow> string option" where
  "amount_re_at t =
     (case match_ci ''Amount:'' t of None \<Rightarrow> None
      | Some r \<Rightarrow>
          (let r1 = dropWhile isWhiteSpace r; ds = takeWhile isDigit r1
           in if ds = [] then None
              else (case match_ci ''lamports'' (dropWhile isWhiteSpace (dropWhile isDigit r1)) of
                      None \<Rightarrow> None | Some r2 \<Rightarrow> Some ds)))"

text \<open>
  \<open>text.match(re)\<close> for a pattern without the \<open>g\<close> flag: the match at the leftmost
  position of the text where the pattern matches, or \<open>null\<close>.
\<close>

fun regex_search :: "(string \<Rightarrow> 'a option) \<Rightarrow> string \<Rightarrow> 'a option" where
  "regex_search re_at [] = re_at []"
| "regex_search re_at (c # cs) =
     (case re_at (c # cs) of Some m \<Rightarrow> Some m | None \<Rightarrow> regex_search re_at cs)"

text \<open>
  \<open>parseInt(s, 10)\<close>: leading white space is skipped, then an optional sign, then the
  longest run of decimal digits; \<open>NaN\<close> (here \<open>None\<close>) when that run is empty. The
  result is the exact integer (rounding to a double is not modelled).
\<close>

definition digit_value :: "char \<Rightarrow> nat" where
  "digit_value c = length (takeWhile (\<lambda>d. d \<noteq> c) ''0123456789'')"

definition digits_value :: "string \<Rightarrow> nat" where
  "digits_value ds = foldl (\<lambda>a d. 10 * a + digit_value d) 0 ds"

definition parseInt10 :: "string \<Rightarrow> int option" where
  "parseInt10 s =
     (let t = dropWhile isWhiteSpace s;
          neg = (case t of c # r \<Rightarrow> c = CHR ''-'' | [] \<Rightarrow> False);
          u = (case t of c # r \<Rightarrow> if c = CHR ''-'' \<or> c = CHR ''+'' then r else t | [] \<Rightarrow> t);
          ds = takeWhile isDigit u
      in if ds = [] then None
         else Some (if neg then - int (digits_value ds) else int (digits_value ds)))"

section \<open>Parsing and validating transfer details\<close>

text \<open>
  \<open>ParseResult\<close> is either a failure with its error message (\<open>Inl\<close>) or a success with
  the parsed data (\<open>Inr\<close>).
\<close>

record ParsedTransfer =
  secret_pt :: string
  commitment_pt :: string
  amount_pt :: int

definition validateHex64 :: "string \<Rightarrow> bool" where
  "validateHex64 v = (length (trim v) = 64 \<and> list_all isHexDigit (trim v))"

definition parseTransferDetails :: "string \<Rightarrow> string + ParsedTransfer" where
  "parseTransferDetails text =
     (if text = [] then Inl ''No text provided''
      else
        let trimmedText = trim text
        in case regex_search secret_re_at trimmedText of
             None \<Rightarrow> Inl ''Could not find valid secret (64 hex characters)''
           | Some secretMatch \<Rightarrow>
               (case regex_search commitment_re_at trimmedText of
                  None \<Rightarrow> Inl ''Could not find valid commitment (64 hex characters)''
                | Some commitmentMatch \<Rightarrow>
                    (case regex_search amount_re_at trimmedText of
                       None \<Rightarrow> Inl ''Could not find valid amount in lamports''
                     | Some amountMatch \<Rightarrow>
                         (case parseInt10 amountMatch of
                            None \<Rightarrow> Inl ''Amount must be a positive number''
                          | Some amount \<Rightarrow>
                              if amount \<le> 0 then Inl ''Amount must be a positive number''
                              else Inr \<lparr>secret_pt = toLowerCase secretMatch,
                                        commitment_pt = toLowerCase commitmentMatch,
                                        amount_pt = amount\<rparr>))))"

definition validateManualEntry :: "string \<Rightarrow> string \<Rightarrow> string \<Rightarrow> string + ParsedTransfer" where
  "validateManualEntry secret commitment amount =
     (let trimmedSecret = trim secret;
          trimmedCommitment = trim commitment;
          trimmedAmount = trim amount
      in if \<not> validateHex64 trimmedSecret
         then Inl ''Secret must be exactly 64 hexadecimal characters''
         else if \<not> validateHex64 trimmedCommitment
         then Inl ''Commitment must be exactly 64 hexadecimal characters''
         else (case parseInt10 trimmedAmount of
                 None \<Rightarrow> Inl ''Amount must be a positive number''
               | Some amountNum \<Rightarrow>
                   if amountNum \<le> 0 then Inl ''Amount must be a positive number''
                   else Inr \<lparr>secret_pt = toLowerCase trimmedSecret,
                             commitment_pt = toLowerCase trimmedCommitment,
                             amount_pt = amountNum\<rparr>))"

text \<open>
  Vocabulary for the round trip: a field of the shareable text is 64 lower-case
  hexadecimal digits, and an amount is a positive integer that a JavaScript number
  holds exactly (at most \<open>Number.MAX_SAFE_INTEGER\<close>).
\<close>

definition isLowerHexDigit :: "char \<Rightarrow> bool" where
  "isLowerHexDigit c = (c \<in> set ''0123456789abcdef'')"

definition hex64_lower :: "string \<Rightarrow> bool" where
  "hex64_lower s = (length s = 64 \<and> list_all isLowerHexDigit s)"

definition MAX_SAFE_INTEGER :: int where
  "MAX_SAFE_INTEGER = 9007199254740991"

section \<open>Positions and the import flow\<close>

text \<open>
  The \<open>Position\<close> type is declared outside the files at hand; its fields are taken from
  their uses. Optional fields are options, amounts and timestamps are integers, the
  status is the string the code stores.
\<close>

record Position =
  id_pos :: string
  token :: string
  amount :: int
  shieldedAmount :: int
  timestamp :: int
  status :: string
  commitment :: string
  secret :: "string option"
  nonce :: "string option"
  denomination :: "int option"
  delayUntil :: "string option"

text \<open>The positions store: \<open>addPosition\<close> appends, \<open>updatePosition\<close> maps over the list.\<close>

definition addPosition :: "Position \<Rightarrow> Position list \<Rightarrow> Position list" where
  "addPosition position positions = positions @ [position]"

definition updatePosition ::
  "string \<Rightarrow> (Position \<Rightarrow> Position) \<Rightarrow> Position list \<Rightarrow> Position list" where
  "updatePosition i updates positions = map (\<lambda>p. if id_pos p = i then updates p else p) positions"

text \<open>
  \<open>detectDenomination\<close>; the table \<open>FIXED_DENOMINATIONS\<close> (value and label) is a
  constant declared elsewhere and is a parameter.
\<close>

definition detectDenomination :: "(int \<times> string) list \<Rightarrow> int \<Rightarrow> int option" where
  "detectDenomination FIXED_DENOMINATIONS amountLamports =
     (case find (\<lambda>d. fst d = amountLamports) FIXED_DENOMINATIONS of
        Some m \<Rightarrow> Some (fst m) | None \<Rightarrow> None)"

text \<open>
  The text the "Copy All Details" button puts on the clipboard. \<open>formatSOL\<close> is
  \<open>(lamports / LAMPORTS_PER_SOL).toFixed(4)\<close>, floating-point formatting that is left as
  a parameter; \<open>selectedPosition?.amount || 0\<close> is 0 without a selected position.
\<close>

definition copyAllDetails :: "(int \<Rightarrow> string) \<Rightarrow> string \<Rightarrow> string \<Rightarrow> Position option \<Rightarrow> string" where
  "copyAllDetails formatSOL recipientSecret newCommitment selectedPosition =
     (let lamports = (case selectedPosition of None \<Rightarrow> 0 | Some p \<Rightarrow> amount p)
      in ''WhaleVault Private Transfer'' @ [CHR 0x0A, CHR 0x0A] @
         ''Secret: '' @ recipientSecret @ [CHR 0x0A] @
         ''Commitment: '' @ newCommitment @ [CHR 0x0A] @
         ''Amount: '' @ Number_toString lamports @ '' lamports ('' @ formatSOL lamports @
         '' SOL)'' @ [CHR 0x0A, CHR 0x0A] @
         ''To claim: Import this position in WhaleVault using the secret and commitment above.'')"

text \<open>
  \<open>handleImport\<close> on the page state it reads and writes. \<open>Date.now()\<close> is the
  argument \<open>now\<close>.
\<close>

datatype ImportInputMode = paste | manual

record ImportPage =
  importInputMode :: ImportInputMode
  pasteText :: string
  manualSecret :: string
  manualCommitment :: string
  manualAmount :: string
  importError :: "string option"
  showImportSuccess :: bool
  importedPosition :: "Position option"
  storePositions :: "Position list"

definition import_input :: "ImportPage \<Rightarrow> string + ParsedTransfer" where
  "import_input pg =
     (case importInputMode pg of
        paste \<Rightarrow>
          (case parseTransferDetails (pasteText pg) of
             Inl e \<Rightarrow> Inl (if e = [] then ''Could not parse transfer details'' else e)
           | Inr d \<Rightarrow> Inr d)
      | manual \<Rightarrow>
          (case validateManualEntry (manualSecret pg) (manualCommitment pg) (manualAmount pg) of
             Inl e \<Rightarrow> Inl (if e = [] then ''Invalid input'' else e)
           | Inr d \<Rightarrow> Inr d))"

definition handleImport :: "(int \<times> string) list \<Rightarrow> int \<Rightarrow> ImportPage \<Rightarrow> ImportPage" where
  "handleImport FIXED_DENOMINATIONS now pg =
     (case import_input pg of
        Inl e \<Rightarrow> pg\<lparr>importError := Some e\<rparr>
      | Inr d \<Rightarrow>
          (case find (\<lambda>p. commitment p = commitment_pt d) (storePositions pg) of
             Some existing \<Rightarrow> pg\<lparr>importError := Some ''This transfer has already been imported''\<rparr>
           | None \<Rightarrow>
               (let position =
                      \<lparr>id_pos = commitment_pt d, token = ''SOL'', amount = amount_pt d,
                       shieldedAmount = amount_pt d, timestamp = now, status = ''shielded'',
                       commitment = commitment_pt d, secret = Some (secret_pt d), nonce = None,
                       denomination = detectDenomination FIXED_DENOMINATIONS (amount_pt d),
                       delayUntil = None\<rparr>
                in pg\<lparr>importError := None,
                      storePositions := addPosition position (storePositions pg),
                      importedPosition := Some position,
                      showImportSuccess := True\<rparr>)))"

section \<open>Secret derivation\<close>

text \<open>
  Byte arrays are lists of characters. \<open>TextEncoder.encode\<close> is UTF-8: a code unit
  below 128 is one byte, one from 128 to 255 is two. \<open>toHex\<close> writes each byte as two
  lower-case hexadecimal digits. HKDF-SHA256 of the Web Crypto API (key material, salt,
  info, 256 bits) is a parameter \<open>hkdf\<close>.
\<close>

definition utf8_encode :: "string \<Rightarrow> string" where
  "utf8_encode s =
     concat (map (\<lambda>c. if (of_char c :: nat) < 128 then [c]
                       else [char_of (192 + (of_char c :: nat) div 64),
                             char_of (128 + (of_char c :: nat) mod 64)]) s)"

definition toHex :: "string \<Rightarrow> string" where
  "toHex bytes =
     concat (map (\<lambda>b. [''0123456789abcdef'' ! ((of_char b :: nat) div 16),
                        ''0123456789abcdef'' ! ((of_char b :: nat) mod 16)]) bytes)"

definition DOMAIN_SEPARATOR :: string where "DOMAIN_SEPARATOR = ''WhaleVault Shield''"
definition VERSION :: int where "VERSION = 1"
definition CHAIN_ID :: string where "CHAIN_ID = ''solana-devnet''"

definition constructSignMessage :: "string \<Rightarrow> string" where
  "constructSignMessage n =
     utf8_encode (DOMAIN_SEPARATOR @ [CHR 0x0A] @ ''Nonce: '' @ n @ [CHR 0x0A] @
       ''Chain ID: '' @ CHAIN_ID @ [CHR 0x0A] @ ''Version: '' @ Number_toString VERSION)"

definition deriveSecretFromSignature ::
  "(string \<Rightarrow> string \<Rightarrow> string \<Rightarrow> string) \<Rightarrow> string \<Rightarrow> string \<Rightarrow> string" where
  "deriveSecretFromSignature hkdf signature n =
     toHex (hkdf signature (utf8_encode n) (utf8_encode ''whalevault-secret-v1''))"

text \<open>
  The wallet: its public key, if connected, and \<open>signMessage\<close>, if the wallet has it;
  a signing request resolves to a signature (\<open>Inr\<close>) or throws an error with a
  message (\<open>Inl\<close>). The functions below return their result (\<open>Inl\<close>: the message of the
  error thrown) together with the messages they asked the wallet to sign.
\<close>

record WalletContextState =
  publicKey :: "string option"
  signMessage :: "(string \<Rightarrow> string + string) option"

fun includes_str :: "string \<Rightarrow> string \<Rightarrow> bool" where
  "includes_str [] sub = (sub = [])"
| "includes_str (c # cs) sub = (prefix sub (c # cs) \<or> includes_str cs sub)"

definition deriveSecretFromNonce ::
  "(string \<Rightarrow> string \<Rightarrow> string \<Rightarrow> string) \<Rightarrow> string \<Rightarrow> WalletContextState \<Rightarrow>
   (string + string) \<times> string list" where
  "deriveSecretFromNonce hkdf n wallet =
     (if publicKey wallet = None then (Inl ''Wallet not connected'', [])
      else case signMessage wallet of
        None \<Rightarrow>
          (Inl (''Wallet does not support message signing. Please use a wallet that supports '' @
                ''signMessage (Phantom, Solflare, etc.)''), [])
      | Some sign \<Rightarrow>
          (let message = constructSignMessage n
           in case sign message of
                Inr signature \<Rightarrow> (Inr (deriveSecretFromSignature hkdf signature n), [message])
              | Inl error \<Rightarrow>
                  (if includes_str error ''User rejected'' \<or> includes_str error ''rejected''
                   then (Inl ''Signature required to unshield this position'', [message])
                   else (Inl error, [message]))))"

definition hasLegacySecret :: "Position \<Rightarrow> bool" where
  "hasLegacySecret position = (case secret position of Some s \<Rightarrow> length s > 0 | None \<Rightarrow> False)"

definition hasNonce :: "Position \<Rightarrow> bool" where
  "hasNonce position = (case nonce position of Some n \<Rightarrow> length n > 0 | None \<Rightarrow> False)"

definition getPositionSecret ::
  "(string \<Rightarrow> string \<Rightarrow> string \<Rightarrow> string) \<Rightarrow> Position \<Rightarrow> WalletContextState \<Rightarrow>
   (string + string) \<times> string list" where
  "getPositionSecret hkdf position wallet =
     (if hasNonce position then deriveSecretFromNonce hkdf (the (nonce position)) wallet
      else if hasLegacySecret position then (Inr (the (secret position)), [])
      else (Inl (''This position cannot be unshielded. It was created without a nonce and '' @
                 ''has no stored secret.''), []))"

section \<open>The private transfer flow\<close>

text \<open>
  \<open>usePrivateTransfer\<close>. The hook's state, the responses of the API (their types are
  declared elsewhere; the fields are the ones the hook reads) and the transaction
  record it stores.
\<close>

datatype PrivateTransferStatus =
  idle | deriving | requesting | generating | relaying | confirming | success | error

record PrivateTransferState =
  status_st :: PrivateTransferStatus
  error_st :: "string option"
  txSignature :: "string option"
  proofProgress :: int
  proofStage :: "string option"
  recipientSecret :: "string option"
  newCommitment :: "string option"

record ProofStatusResponse =
  status_psr :: string
  progress :: int
  stage :: "string option"
  error_psr :: "string option"
  result_psr :: "string option"

record RelayTransferResponse =
  signature_rt :: string
  amount_rt :: int
  recipientSecret_rt :: string
  newCommitment_rt :: string

record Transaction =
  id_tx :: string
  type_tx :: string
  token_tx :: string
  amount_tx :: int
  timestamp_tx :: int
  txHash :: string
  status_tx :: string

definition addTransaction :: "Transaction \<Rightarrow> Transaction list \<Rightarrow> Transaction list" where
  "addTransaction transaction transactions = transactions @ [transaction]"

text \<open>
  Everything outside the hook is an environment: the wallet, the clock (one reading
  per place the code reads it), \<open>Date\<close> parsing (\<open>None\<close>: an invalid date), the API
  calls with their outcomes (\<open>Inl\<close>: the message of the error thrown), and the shared
  flag \<open>abortRef.current\<close>. The flag is set by \<open>reset\<close> and by the unmount effect, which
  run while \<open>transfer\<close> is suspended; the environment therefore gives the value of each
  read of the flag: the one in the polling probe of attempt \<open>k\<close> and the one in the
  \<open>catch\<close> block.
\<close>

record TransferEnv =
  wallet :: WalletContextState
  hkdf_env :: "string \<Rightarrow> string \<Rightarrow> string \<Rightarrow> string"
  Date_parse :: "string \<Rightarrow> int option"
  now_guard :: int
  now_remaining :: int
  now_record :: int
  requestPrivateTransferProof ::
    "string \<Rightarrow> string \<Rightarrow> int \<Rightarrow> string \<Rightarrow> int option \<Rightarrow> string + string"
  getProofStatus :: "string \<Rightarrow> nat \<Rightarrow> string + ProofStatusResponse"
  PROOF_POLLING_CONFIG :: Partial_PollingOptions
  relayPrivateTransfer :: "string \<Rightarrow> string \<Rightarrow> string + RelayTransferResponse"
  waitForTransactionConfirmation :: "string \<Rightarrow> string + bool"
  abortRef_in_probe :: "nat \<Rightarrow> bool"
  abortRef_in_catch :: bool

text \<open>
  What a call of \<open>transfer\<close> leaves behind: the hook's state, the two stores, and the
  calls it made to the outside, in order.
\<close>

datatype transfer_call =
  Call_getPositionSecret
| Call_signMessage string
| Call_requestPrivateTransferProof
| Call_getProofStatus nat
| Call_relayPrivateTransfer
| Call_waitForTransactionConfirmation

record TransferWorld =
  state :: PrivateTransferState
  positions :: "Position list"
  transactions :: "Transaction list"
  calls :: "transfer_call list"

definition set_error :: "string \<Rightarrow> TransferWorld \<Rightarrow> TransferWorld" where
  "set_error message w = w\<lparr>state := (state w)\<lparr>status_st := error, error_st := Some message\<rparr>\<rparr>"

text \<open>
  The remaining time of a privacy delay. \<open>Math.floor(remaining / 3600000)\<close> is floor
  division; \<open>%\<close> is the remainder with the sign of the dividend; \<open>Math.ceil\<close> of an
  integer over 60000 is written with floor division.
\<close>

definition js_rem :: "int \<Rightarrow> int \<Rightarrow> int" where
  "js_rem a b = sgn a * (\<bar>a\<bar> mod \<bar>b\<bar>)"

definition delay_timeStr :: "int \<Rightarrow> string" where
  "delay_timeStr remaining =
     (let hours = remaining div (60 * 60 * 1000);
          minutes = - ((- js_rem remaining (60 * 60 * 1000)) div (60 * 1000))
      in if hours > 0 then Number_toString hours @ ''h '' @ Number_toString minutes @ ''m''
         else Number_toString minutes @ ''m'')"

definition delay_active :: "TransferEnv \<Rightarrow> Position \<Rightarrow> bool" where
  "delay_active env position =
     (case delayUntil position of
        None \<Rightarrow> False
      | Some d \<Rightarrow> d \<noteq> [] \<and> (case Date_parse env d of None \<Rightarrow> False | Some t \<Rightarrow> t > now_guard env))"

definition delay_error :: "TransferEnv \<Rightarrow> Position \<Rightarrow> string" where
  "delay_error env position =
     (let remaining = the (Date_parse env (the (delayUntil position))) - now_remaining env
      in ''This position has a privacy delay. Available in '' @ delay_timeStr remaining @ ''.'')"

text \<open>
  \<open>pollForProof\<close>: \<open>pollWithBackoff\<close> over a probe that throws "Transfer cancelled" when
  the flag is set and otherwise asks for the job's status and copies progress and stage
  into the state.
\<close>

definition pollForProof_probe :: "TransferEnv \<Rightarrow> string \<Rightarrow> nat \<Rightarrow> string + ProofStatusResponse" where
  "pollForProof_probe env jobId k =
     (if abortRef_in_probe env k then Inl ''Transfer cancelled'' else getProofStatus env jobId k)"

fun pollForProof_effects ::
  "TransferEnv \<Rightarrow> string \<Rightarrow> poll_event list \<Rightarrow> TransferWorld \<Rightarrow> TransferWorld" where
  "pollForProof_effects env jobId [] w = w"
| "pollForProof_effects env jobId (Sleep d # evs) w = pollForProof_effects env jobId evs w"
| "pollForProof_effects env jobId (Probe k # evs) w =
     pollForProof_effects env jobId evs
       (if abortRef_in_probe env k then w
        else (case getProofStatus env jobId k of
                Inl e \<Rightarrow> w\<lparr>calls := calls w @ [Call_getProofStatus k]\<rparr>
              | Inr response \<Rightarrow>
                  w\<lparr>calls := calls w @ [Call_getProofStatus k],
                    state := (state w)\<lparr>proofProgress := progress response,
                                      proofStage := stage response\<rparr>\<rparr>))"

definition pollForProof ::
  "TransferEnv \<Rightarrow> string \<Rightarrow> TransferWorld \<Rightarrow> (string + ProofStatusResponse) \<times> TransferWorld" where
  "pollForProof env jobId w =
     (let run = pollWithBackoff (pollForProof_probe env jobId)
                  (\<lambda>response. status_psr response = ''completed'' \<or> status_psr response = ''failed'')
                  (PROOF_POLLING_CONFIG env);
          w' = pollForProof_effects env jobId (trace run) w
      in case outcome run of
           Inl e \<Rightarrow> (Inl e, w')
         | Inr result \<Rightarrow>
             if status_psr result = ''failed''
             then (Inl (case error_psr result of
                          None \<Rightarrow> ''Transfer proof generation failed''
                        | Some e \<Rightarrow> if e = [] then ''Transfer proof generation failed'' else e), w')
             else if result_psr result = None
             then (Inl ''Proof completed but no result returned'', w')
             else (Inr result, w'))"

text \<open>
  The \<open>catch\<close> block of \<open>transfer\<close>, with the two variables it reads besides the error:
  \<open>relayerSubmitted\<close> and \<open>transferResult\<close>.
\<close>

definition nonempty_or_null :: "string \<Rightarrow> string option" where
  "nonempty_or_null v = (if v = [] then None else Some v)"

definition transfer_catch ::
  "TransferEnv \<Rightarrow> Position \<Rightarrow> bool \<Rightarrow> RelayTransferResponse option \<Rightarrow> string \<Rightarrow> TransferWorld \<Rightarrow>
   TransferWorld" where
  "transfer_catch env position relayerSubmitted transferResult message w =
     (if abortRef_in_catch env then w
      else
        let w1 = (if relayerSubmitted
                  then w\<lparr>positions := updatePosition (id_pos position)
                                          (\<lambda>p. p\<lparr>status := ''transferred''\<rparr>) (positions w)\<rparr>
                  else w);
            userMessage =
              (if includes_str message ''Signature required''
               then ''Please sign the message to transfer your position. The signature is '' @
                    ''used to securely derive your secret.''
               else if includes_str message ''User rejected''
               then ''Signature request was rejected. Please try again.''
               else if includes_str message ''Relayer''
               then ''Relayer service error. Please try again later.''
               else message)
        in w1\<lparr>state := (state w1)
                 \<lparr>status_st := error, error_st := Some userMessage,
                  recipientSecret :=
                    (case transferResult of None \<Rightarrow> None
                     | Some r \<Rightarrow> nonempty_or_null (recipientSecret_rt r)),
                  newCommitment :=
                    (case transferResult of None \<Rightarrow> None
                     | Some r \<Rightarrow> nonempty_or_null (newCommitment_rt r))\<rparr>\<rparr>)"

text \<open>
  The body of the \<open>try\<close> block: each step first writes the state, then awaits a call;
  an error thrown by the call goes to the \<open>catch\<close> block with the values
  \<open>relayerSubmitted\<close> and \<open>transferResult\<close> have at that point.
\<close>

definition transfer_try :: "TransferEnv \<Rightarrow> Position \<Rightarrow> string \<Rightarrow> TransferWorld \<Rightarrow> TransferWorld" where
  "transfer_try env position recipientAddress w =
     (let gs = getPositionSecret (hkdf_env env) position (wallet env);
          w1 = w\<lparr>state :=
                   \<lparr>status_st = deriving, error_st = None, txSignature = None, proofProgress = 0,
                    proofStage = Some ''Requesting signature to derive secret...'',
                    recipientSecret = None, newCommitment = None\<rparr>,
                 calls := calls w @ [Call_getPositionSecret] @ map Call_signMessage (snd gs)\<rparr>
      in case fst gs of
           Inl e \<Rightarrow> transfer_catch env position False None e w1
         | Inr derived \<Rightarrow>
             (let w2 = w1\<lparr>state := (state w1)
                            \<lparr>status_st := requesting,
                             proofStage := Some ''Requesting transfer proof generation...''\<rparr>,
                          calls := calls w1 @ [Call_requestPrivateTransferProof]\<rparr>
              in case requestPrivateTransferProof env (commitment position) derived
                        (amount position) recipientAddress (denomination position) of
                   Inl e \<Rightarrow> transfer_catch env position False None e w2
                 | Inr jobId \<Rightarrow>
                     (let w3 = w2\<lparr>state := (state w2)\<lparr>status_st := generating\<rparr>\<rparr>;
                          polled = pollForProof env jobId w3;
                          w4 = snd polled
                      in case fst polled of
                           Inl e \<Rightarrow> transfer_catch env position False None e w4
                         | Inr proved \<Rightarrow>
                             (let w5 = w4\<lparr>state := (state w4)
                                            \<lparr>status_st := relaying,
                                             proofStage := Some ''Relayer is submitting transfer...''\<rparr>,
                                          calls := calls w4 @ [Call_relayPrivateTransfer]\<rparr>
                              in case relayPrivateTransfer env jobId recipientAddress of
                                   Inl e \<Rightarrow> transfer_catch env position False None e w5
                                 | Inr transferResult \<Rightarrow>
                                     (let w6 = w5\<lparr>state := (state w5)
                                                    \<lparr>status_st := confirming,
                                                     proofStage := Some ''Confirming transaction...''\<rparr>,
                                                  calls := calls w5 @
                                                    [Call_waitForTransactionConfirmation]\<rparr>
                                      in case waitForTransactionConfirmation env
                                                (signature_rt transferResult) of
                                           Inl e \<Rightarrow>
                                             transfer_catch env position True (Some transferResult) e w6
                                         | Inr confirmed \<Rightarrow>
                                             if \<not> confirmed
                                             then transfer_catch env position True (Some transferResult)
                                                    (''Transaction was not confirmed on-chain. '' @
                                                     ''Please check the explorer and try again.'') w6
                                             else w6\<lparr>positions :=
                                                       updatePosition (id_pos position)
                                                         (\<lambda>p. p\<lparr>status := ''transferred''\<rparr>)
                                                         (positions w6),
                                                     transactions :=
                                                       addTransaction
                                                         \<lparr>id_tx = signature_rt transferResult,
                                                          type_tx = ''transfer'',
                                                          token_tx = token position,
                                                          amount_tx = amount_rt transferResult,
                                                          timestamp_tx = now_record env,
                                                          txHash = signature_rt transferResult,
                                                          status_tx = ''confirmed''\<rparr>
                                                         (transactions w6),
                                                     state :=
                                                       \<lparr>status_st = success, error_st = None,
                                                        txSignature = Some (signature_rt transferResult),
                                                        proofProgress = 100,
                                                        proofStage = Some ''complete'',
                                                        recipientSecret =
                                                          Some (recipientSecret_rt transferResult),
                                                        newCommitment =
                                                          Some (newCommitment_rt transferResult)\<rparr>\<rparr>)))))"

text \<open>\<open>transfer\<close>: the four guards in their order, then the \<open>try\<close> block.\<close>

definition transfer :: "TransferEnv \<Rightarrow> Position \<Rightarrow> string \<Rightarrow> TransferWorld \<Rightarrow> TransferWorld" where
  "transfer env position recipientAddress w =
     (if publicKey (wallet env) = None then set_error ''Wallet not connected'' w
      else if commitment position = [] then set_error ''Position missing commitment'' w
      else if recipientAddress = [] \<or> length recipientAddress < 32
      then set_error ''Invalid recipient address'' w
      else if delay_active env position then set_error (delay_error env position) w
      else transfer_try env position recipientAddress w)"

section \<open>Example inputs\<close>

text \<open>
  A position imported earlier (stored secret, no nonce), the store that holds it, a
  connected wallet, and an environment in which every call succeeds.
\<close>

definition example_position :: Position where
  "example_position =
     \<lparr>id_pos = ''pos-1'', token = ''SOL'', amount = 1000000000, shieldedAmount = 1000000000,
      timestamp = 0, status = ''shielded'', commitment = ''c0ffee'', secret = Some ''5ec4e7'',
      nonce = None, denomination = None, delayUntil = None\<rparr>"

definition example_world :: TransferWorld where
  "example_world =
     \<lparr>state = \<lparr>status_st = idle, error_st = None, txSignature = None, proofProgress = 0,
               proofStage = None, recipientSecret = None, newCommitment = None\<rparr>,
      positions = [example_position], transactions = [], calls = []\<rparr>"

definition example_recipient :: string where
  "example_recipient = replicate 44 CHR ''R''"

definition example_env :: TransferEnv where
  "example_env =
     \<lparr>wallet = \<lparr>publicKey = Some ''sender'', signMessage = None\<rparr>,
      hkdf_env = (\<lambda>k s i. k),
      Date_parse = (\<lambda>d. if d = ''in two hours'' then Some 7200000 else None),
      now_guard = 0, now_remaining = 0, now_record = 0,
      requestPrivateTransferProof = (\<lambda>c s a r d. Inr ''job-1''),
      getProofStatus =
        (\<lambda>j k. Inr \<lparr>status_psr = ''completed'', progress = 100, stage = Some ''finalizing'',
                     error_psr = None, result_psr = Some ''proof''\<rparr>),
      PROOF_POLLING_CONFIG =
        \<lparr>opt_initialDelayMs = None, opt_maxDelayMs = None, opt_maxAttempts = None,
         opt_backoffMultiplier = None\<rparr>,
      relayPrivateTransfer =
        (\<lambda>j r. Inr \<lparr>signature_rt = ''sig-1'', amount_rt = 1000000000,
                     recipientSecret_rt = ''aa'', newCommitment_rt = ''bb''\<rparr>),
      waitForTransactionConfirmation = (\<lambda>s. Inr True),
      abortRef_in_probe = (\<lambda>k. False),
      abortRef_in_catch = False\<rparr>"

text \<open>
  The same environment, except that the confirmation wait gives up (returns false) and
  the hook has been reset or unmounted by then, so that the \<open>catch\<close> block reads the
  flag as set.
\<close>

definition example_env_cancelled :: TransferEnv where
  "example_env_cancelled =
     example_env\<lparr>waitForTransactionConfirmation := (\<lambda>s. Inr False), abortRef_in_catch := True\<rparr>"

section \<open>Properties of the circuits\<close>

lemma DualMux_constraint_iff: "DualMux_constraint s = is_bit s"
  by (auto simp: DualMux_constraint_def is_bit_def)

lemma DualMux_hash_bit:
  "is_bit s \<Longrightarrow>
   HashLeftRight H (DualMux_out0 c p s) (DualMux_out1 c p s) = fold_step H c (p, s)"
  by (auto simp: is_bit_def HashLeftRight_def DualMux_out0_def DualMux_out1_def fold_step_def)

lemma levelHashes_fold:
  "n \<le> length P \<Longrightarrow> n \<le> length I \<Longrightarrow> list_all (\<lambda>i. is_bit (I ! i)) [0..<n] \<Longrightarrow>
   levelHashes H leaf P I n = fold_path H leaf (take n P) (take n I)"
proof (induction n)
  case 0
  show ?case by (simp add: fold_path_def)
next
  case (Suc n)
  have bit: "is_bit (I ! n)" using Suc.prems(3) by simp
  have ih: "levelHashes H leaf P I n = fold_path H leaf (take n P) (take n I)"
    using Suc by simp
  have zp: "zip (take (Suc n) P) (take (Suc n) I) = zip (take n P) (take n I) @ [(P ! n, I ! n)]"
    using Suc.prems(1,2) by (simp add: take_Suc_conv_app_nth)
  show ?case
    by (simp add: ih DualMux_hash_bit [OF bit] zp fold_path_def)
qed

lemma list_all_bits_nth:
  "length I = n \<Longrightarrow> list_all (\<lambda>i. is_bit (I ! i)) [0..<n] = list_all is_bit I"
  by (force simp: list_all_iff in_set_conv_nth)

lemma MerkleTreeChecker_iff:
  assumes "length P = D" "length I = D"
  shows "MerkleTreeChecker H D C R P I = (list_all is_bit I \<and> fold_path H C P I = R)"
proof (cases "list_all is_bit I")
  case True
  then have "list_all (\<lambda>i. is_bit (I ! i)) [0..<D]"
    using assms(2) list_all_bits_nth by blast
  then have "levelHashes H C P I D = fold_path H C P I"
    using levelHashes_fold [of D P I H C] assms by simp
  then show ?thesis
    using True assms(2)
    by (auto simp: MerkleTreeChecker_def DualMux_constraint_iff list_all_bits_nth)
next
  case False
  then show ?thesis
    using assms(2) by (simp add: MerkleTreeChecker_def DualMux_constraint_iff list_all_bits_nth)
qed


text \<open>
  C1. In the Withdraw circuit, for amount \<open>amt\<close> and secret \<open>sec\<close>, the commitment is
  \<open>H amt sec\<close> (amount first), the nullifier hasher's output is \<open>H commitment sec\<close>
  (commitment first), and the constraints can only hold when the public
  \<open>nullifierHash\<close> equals \<open>H (H amt sec) sec\<close>. \<open>H\<close> is arbitrary, in particular not symmetric, so the
  argument order is part of the statement.
\<close>

theorem Withdraw_commitment_nullifier:
  "Withdraw_commitment H amt sec = H amt sec \<and>
   Withdraw_nullifierHasher_out H amt sec = H (Withdraw_commitment H amt sec) sec \<and>
   (Withdraw H levels root' nullifierHash recipient amt sec pathElements pathIndices \<longrightarrow>
      nullifierHash = H (H amt sec) sec)"
  by (auto simp: Withdraw_def Withdraw_commitment_def Withdraw_nullifierHasher_out_def)

theorem Withdraw_commitment_nullifier_witness:
  "Withdraw (\<lambda>a b. 2 * a + 3 * b + 1) 2 203 51 9 3 4 [7, 11] [0, 1 :: int] \<and>
   Withdraw_commitment (\<lambda>a b. 2 * a + 3 * b + 1) 3 (4 :: int) = 19 \<and>
   Withdraw_nullifierHasher_out (\<lambda>a b. 2 * a + 3 * b + 1) 3 (4 :: int) = 51 \<and>
   (51 :: int) = 2 * (2 * 3 + 3 * 4 + 1) + 3 * 4 + 1"
proof -
  let ?H = "\<lambda>a b :: int. 2 * a + 3 * b + 1"
  have acc: "Withdraw ?H 2 203 51 9 3 4 [7, 11] [0, 1]"
    by (simp add: Withdraw_def Withdraw_commitment_def Withdraw_nullifierHasher_out_def
        MerkleTreeChecker_def DualMux_constraint_def DualMux_out0_def DualMux_out1_def
        HashLeftRight_def numeral_2_eq_2 upt_rec)
  from Withdraw_commitment_nullifier [of ?H 3 4 2 203 51 9 "[7, 11]" "[0, 1]"] acc
  show ?thesis by simp
qed

text \<open>
  C2. For path elements and direction indices of length \<open>D\<close>, \<open>MerkleTreeChecker(D)\<close>
  accepts iff every index is 0 or 1 and folding the leaf through the path (current,
  sibling) on index 0 and (sibling, current) on index 1 gives exactly the root. Hence,
  starting from an accepted input, replacing one path element or one direction index so
  that the folded value changes gives a rejected input.
\<close>

theorem MerkleTreeChecker_accepts_iff_fold:
  assumes "length P = D" and "length I = D"
  shows "(MerkleTreeChecker H D C R P I \<longleftrightarrow> list_all is_bit I \<and> fold_path H C P I = R) \<and>
    (\<forall>k x. MerkleTreeChecker H D C R P I \<and> fold_path H C (P[k := x]) I \<noteq> fold_path H C P I
        \<longrightarrow> \<not> MerkleTreeChecker H D C R (P[k := x]) I) \<and>
    (\<forall>k b. MerkleTreeChecker H D C R P I \<and> fold_path H C P (I[k := b]) \<noteq> fold_path H C P I
        \<longrightarrow> \<not> MerkleTreeChecker H D C R P (I[k := b]))"
proof -
  have a: "MerkleTreeChecker H D C R P I \<longleftrightarrow> list_all is_bit I \<and> fold_path H C P I = R"
    using assms by (rule MerkleTreeChecker_iff)
  have b: "MerkleTreeChecker H D C R (P[k := x]) I
      \<longleftrightarrow> list_all is_bit I \<and> fold_path H C (P[k := x]) I = R" for k x
    using assms by (intro MerkleTreeChecker_iff) simp_all
  have c: "MerkleTreeChecker H D C R P (I[k := b])
      \<longleftrightarrow> list_all is_bit (I[k := b]) \<and> fold_path H C P (I[k := b]) = R" for k b
    using assms by (intro MerkleTreeChecker_iff) simp_all
  show ?thesis
    unfolding b c using a by auto
qed

theorem MerkleTreeChecker_accepts_iff_fold_witness:
  "MerkleTreeChecker (\<lambda>a b. 2 * a + 3 * b + 1) 2 5 119 [7, 11] [0, 1 :: int] \<and>
   \<not> MerkleTreeChecker (\<lambda>a b. 2 * a + 3 * b + 1) 2 5 119 [7, 11] ([0, 1 :: int][0 := 1]) \<and>
   \<not> MerkleTreeChecker (\<lambda>a b. 2 * a + 3 * b + 1) 2 5 119 ([7, 11][1 := 12]) [0, 1 :: int] \<and>
   \<not> MerkleTreeChecker (\<lambda>a b. 2 * a + 3 * b + 1) 2 5 119 [7, 11] [0, 2 :: int]"
proof -
  let ?H = "\<lambda>a b :: int. 2 * a + 3 * b + 1"
  have len: "length [7, 11 :: int] = 2" "length [0, 1 :: int] = 2" "length [0, 2 :: int] = 2"
    by simp_all
  note t = MerkleTreeChecker_accepts_iff_fold [of _ 2 _ ?H 5 119]
  have acc: "MerkleTreeChecker ?H 2 5 119 [7, 11] [0, 1]"
    using t [OF len(1) len(2)] by (simp add: fold_path_def fold_step_def is_bit_def)
  have flip: "\<not> MerkleTreeChecker ?H 2 5 119 [7, 11] ([0, 1][0 := 1])"
    using t [OF len(1) len(2), THEN conjunct2, THEN conjunct2, THEN spec, THEN spec, of 0 1] acc
    by (simp add: fold_path_def fold_step_def)
  have sib: "\<not> MerkleTreeChecker ?H 2 5 119 ([7, 11][1 := 12]) [0, 1]"
    using t [OF len(1) len(2), THEN conjunct2, THEN conjunct1, THEN spec, THEN spec, of 1 12] acc
    by (simp add: fold_path_def fold_step_def)
  have nonbit: "\<not> MerkleTreeChecker ?H 2 5 119 [7, 11] [0, 2]"
    using t [OF len(1) len(3)] by (simp add: is_bit_def)
  show ?thesis using acc flip sib nonbit by simp
qed

section \<open>Properties of polling\<close>

lemma last_error_Suc_Inr: "fn k = Inr v \<Longrightarrow> last_error fn (Suc k) = last_error fn k"
  by simp



lemma pollWithBackoffAbortable_loop_aborted:
  "k < maxAttempts opts \<Longrightarrow> attempt \<le> k \<Longrightarrow> isAborted (controller_at sched aborted0 k) \<Longrightarrow>
   (\<And>j. attempt \<le> j \<Longrightarrow> j < k \<Longrightarrow> round_continues fn isDone sched aborted0 j) \<Longrightarrow>
   pollWithBackoffAbortable_loop fn isDone sched opts attempt (backoff_delay opts attempt)
     (controller_at sched aborted0 attempt) (failed_rounds opts attempt)
   = \<lparr>outcome = Inl ''Polling aborted'', trace = failed_rounds opts k\<rparr>"
proof (induction "k - attempt" arbitrary: attempt)
  case 0
  then have eq: "attempt = k" by simp
  show ?case
    unfolding eq using 0(2,4)
    by (subst pollWithBackoffAbortable_loop.simps) simp
next
  case (Suc d)
  then have lt: "attempt < k" "attempt < maxAttempts opts" by simp_all
  have rc: "round_continues fn isDone sched aborted0 attempt" using Suc.prems(4) lt by simp
  have ih: "pollWithBackoffAbortable_loop fn isDone sched opts (Suc attempt)
     (backoff_delay opts (Suc attempt)) (controller_at sched aborted0 (Suc attempt))
     (failed_rounds opts (Suc attempt)) = \<lparr>outcome = Inl ''Polling aborted'', trace = failed_rounds opts k\<rparr>"
    using Suc.hyps(2) Suc.prems lt by (intro Suc.hyps(1)) simp_all
  show ?case
    using rc lt ih
    by (subst pollWithBackoffAbortable_loop.simps)
       (cases "fn attempt"; simp add: round_continues_def Let_def)
qed

lemma decimal_digit: "n < 10 \<Longrightarrow> decimal n = [digit_char n]"
  by (subst decimal.simps) simp




text \<open>
  C9. \<open>pollWithBackoffAbortable\<close> reads the controller before anything else in every
  loop iteration: if iteration \<open>k\<close> is reached (every earlier round ran through to its
  sleep) and the controller is aborted when it starts, the call throws "Polling aborted"
  after the rounds \<open>0..k-1\<close> only: probe \<open>k\<close> is not called and nothing more is slept. The
  message differs from both timeout messages.
\<close>

theorem pollWithBackoffAbortable_aborted_first:
  assumes "opts = spread_options DEFAULT_OPTIONS options"
    and "k < maxAttempts opts"
    and "\<forall>j<k. round_continues fn isDone sched aborted0 j"
    and "isAborted (controller_at sched aborted0 k)"
  shows "pollWithBackoffAbortable fn isDone aborted0 sched options
           = \<lparr>outcome = Inl ''Polling aborted'', trace = failed_rounds opts k\<rparr> \<and>
         Probe k \<notin> set (trace (pollWithBackoffAbortable fn isDone aborted0 sched options)) \<and>
         ''Polling aborted'' \<noteq> timeout_message_abortable (maxAttempts opts) \<and>
         ''Polling aborted'' \<noteq> timeout_message (maxAttempts opts) lastError"
proof -
  have run: "pollWithBackoffAbortable fn isDone aborted0 sched options
      = pollWithBackoffAbortable_loop fn isDone sched opts 0 (backoff_delay opts 0)
          (controller_at sched aborted0 0) (failed_rounds opts 0)"
    by (simp add: pollWithBackoffAbortable_def assms(1) Let_def)
  have res: "pollWithBackoffAbortable fn isDone aborted0 sched options
           = \<lparr>outcome = Inl ''Polling aborted'', trace = failed_rounds opts k\<rparr>"
    unfolding run
    using pollWithBackoffAbortable_loop_aborted [of k opts 0 sched aborted0 fn isDone] assms(2-4)
    by simp
  have no_probe: "Probe k \<notin> set (failed_rounds opts j)" if "j \<le> k" for j
    using that by (induction j) auto
  have d1: "''Polling aborted'' \<noteq> timeout_message_abortable (maxAttempts opts)"
    by (simp add: timeout_message_abortable_def)
  have d2: "''Polling aborted'' \<noteq> timeout_message (maxAttempts opts) lastError"
    by (simp add: timeout_message_def)
  from res no_probe [of k] d1 d2 show ?thesis by simp
qed

theorem pollWithBackoffAbortable_aborted_first_witness:
  "pollWithBackoffAbortable (\<lambda>k. Inr (int k)) (\<lambda>v. 2 \<le> v) createPollingController
     \<lparr>during_probe = (\<lambda>k. []), during_sleep = (\<lambda>k. if k = 0 then [Abort] else [])\<rparr>
     \<lparr>opt_initialDelayMs = None, opt_maxDelayMs = None, opt_maxAttempts = None,
      opt_backoffMultiplier = None\<rparr>
   = \<lparr>outcome = Inl ''Polling aborted'', trace = [Probe 0, Sleep 500]\<rparr>"
proof -
  let ?fn = "\<lambda>k::nat. (Inr (int k) :: string + int)"
  let ?isDone = "\<lambda>v::int. 2 \<le> v"
  let ?sched = "\<lparr>during_probe = (\<lambda>k. []), during_sleep = (\<lambda>k::nat. if k = 0 then [Abort] else [])\<rparr>"
  let ?o = "\<lparr>opt_initialDelayMs = None, opt_maxDelayMs = None, opt_maxAttempts = None,
      opt_backoffMultiplier = None\<rparr>"
  have h2: "(1::nat) < maxAttempts (spread_options DEFAULT_OPTIONS ?o)"
    by (simp add: spread_options_def DEFAULT_OPTIONS_def)
  have h3: "\<forall>j<1. round_continues ?fn ?isDone ?sched createPollingController j"
    by (simp add: round_continues_def isAborted_def createPollingController_def)
  have h4: "isAborted (controller_at ?sched createPollingController 1)"
    by (simp add: isAborted_def)
  from pollWithBackoffAbortable_aborted_first [OF refl h2 h3 h4]
  show ?thesis
    by (simp add: spread_options_def DEFAULT_OPTIONS_def)
qed

section \<open>Properties of secret resolution and of the import flow\<close>

lemma hasNonce_iff: "hasNonce p \<longleftrightarrow> (\<exists>n. nonce p = Some n \<and> n \<noteq> [])"
  by (auto simp: hasNonce_def split: option.splits)

lemma hasLegacySecret_iff: "hasLegacySecret p \<longleftrightarrow> (\<exists>s. secret p = Some s \<and> s \<noteq> [])"
  by (auto simp: hasLegacySecret_def split: option.splits)

text \<open>
  C4. The resolution order of \<open>getPositionSecret\<close>. A position with a non-empty nonce
  \<open>n\<close> goes through \<open>deriveSecretFromNonce\<close> whatever else it stores (with a
  disconnected wallet the call fails, a stored secret is not used); when the wallet is
  connected and signs, exactly one message is signed, the UTF-8 bytes of the four lines
  "WhaleVault Shield", "Nonce: \<open>n\<close>", "Chain ID: solana-devnet", "Version: 1", and the
  secret is the lower-case hexadecimal text of HKDF applied to the signature, with the
  nonce's bytes as salt and "whalevault-secret-v1" as info. Without such a nonce, a
  non-empty stored secret is returned as it is and the wallet is asked nothing; with
  neither, the call fails with the unrecoverable-position error.
\<close>

theorem getPositionSecret_resolution_order:
  "(\<forall>n. nonce p = Some n \<and> n \<noteq> [] \<longrightarrow>
      getPositionSecret hkdf p w = deriveSecretFromNonce hkdf n w \<and>
      (publicKey w = None \<longrightarrow> getPositionSecret hkdf p w = (Inl ''Wallet not connected'', [])) \<and>
      (\<forall>pk sign sig. publicKey w = Some pk \<and> signMessage w = Some sign \<and>
          sign (utf8_encode (''WhaleVault Shield'' @ [CHR 0x0A] @ ''Nonce: '' @ n @ [CHR 0x0A] @
                  ''Chain ID: solana-devnet'' @ [CHR 0x0A] @ ''Version: 1'')) = Inr sig \<longrightarrow>
          getPositionSecret hkdf p w
          = (Inr (toHex (hkdf sig (utf8_encode n) (utf8_encode ''whalevault-secret-v1''))),
             [utf8_encode (''WhaleVault Shield'' @ [CHR 0x0A] @ ''Nonce: '' @ n @ [CHR 0x0A] @
                  ''Chain ID: solana-devnet'' @ [CHR 0x0A] @ ''Version: 1'')]))) \<and>
   (\<forall>s. (nonce p = None \<or> nonce p = Some []) \<and> secret p = Some s \<and> s \<noteq> [] \<longrightarrow>
      getPositionSecret hkdf p w = (Inr s, [])) \<and>
   ((nonce p = None \<or> nonce p = Some []) \<and> (secret p = None \<or> secret p = Some []) \<longrightarrow>
      getPositionSecret hkdf p w
      = (Inl (''This position cannot be unshielded. It was created without a nonce and '' @
              ''has no stored secret.''), []))"
proof -
  have msg: "constructSignMessage n
      = utf8_encode (''WhaleVault Shield'' @ [CHR 0x0A] @ ''Nonce: '' @ n @ [CHR 0x0A] @
                  ''Chain ID: solana-devnet'' @ [CHR 0x0A] @ ''Version: 1'')" for n
    by (simp add: constructSignMessage_def DOMAIN_SEPARATOR_def CHAIN_ID_def VERSION_def
        Number_toString_def decimal_digit digit_char_def)
  have a: "getPositionSecret hkdf p w = deriveSecretFromNonce hkdf n w"
    if "nonce p = Some n" "n \<noteq> []" for n
    using that by (simp add: getPositionSecret_def hasNonce_def)
  have nw: "deriveSecretFromNonce hkdf n w = (Inl ''Wallet not connected'', [])"
    if "publicKey w = None" for n
    using that by (simp add: deriveSecretFromNonce_def)
  have b: "deriveSecretFromNonce hkdf n w
      = (Inr (toHex (hkdf sig (utf8_encode n) (utf8_encode ''whalevault-secret-v1''))),
         [constructSignMessage n])"
    if "publicKey w = Some pk" "signMessage w = Some sign" "sign (constructSignMessage n) = Inr sig"
    for n pk sign sig
    using that by (simp add: deriveSecretFromNonce_def deriveSecretFromSignature_def Let_def)
  have c: "getPositionSecret hkdf p w = (Inr s, [])"
    if "nonce p = None \<or> nonce p = Some []" "secret p = Some s" "s \<noteq> []" for s
    using that by (auto simp: getPositionSecret_def hasNonce_def hasLegacySecret_def)
  have d: "getPositionSecret hkdf p w
      = (Inl (''This position cannot be unshielded. It was created without a nonce and '' @
              ''has no stored secret.''), [])"
    if "nonce p = None \<or> nonce p = Some []" "secret p = None \<or> secret p = Some []"
    using that by (auto simp: getPositionSecret_def hasNonce_def hasLegacySecret_def)
  have anw: "getPositionSecret hkdf p w = (Inl ''Wallet not connected'', [])"
    if "nonce p = Some n" "n \<noteq> []" "publicKey w = None" for n
    using a [OF that(1,2)] nw [OF that(3)] by simp
  have ab: "getPositionSecret hkdf p w
      = (Inr (toHex (hkdf sig (utf8_encode n) (utf8_encode ''whalevault-secret-v1''))),
         [utf8_encode (''WhaleVault Shield'' @ [CHR 0x0A] @ ''Nonce: '' @ n @ [CHR 0x0A] @
                  ''Chain ID: solana-devnet'' @ [CHR 0x0A] @ ''Version: 1'')])"
    if "nonce p = Some n" "n \<noteq> []" "publicKey w = Some pk" "signMessage w = Some sign"
      "sign (utf8_encode (''WhaleVault Shield'' @ [CHR 0x0A] @ ''Nonce: '' @ n @ [CHR 0x0A] @
                  ''Chain ID: solana-devnet'' @ [CHR 0x0A] @ ''Version: 1'')) = Inr sig"
    for n pk sign sig
    using a [OF that(1,2)] b [OF that(3,4), of n sig] that(5) by (simp only: msg)
  show ?thesis
    by (intro conjI allI impI; (elim conjE)?) (rule a ab c d anw; assumption)+
qed

theorem getPositionSecret_resolution_order_witness:
  "getPositionSecret (\<lambda>k s i. k @ s @ i)
     \<lparr>id_pos = ''c1'', token = ''SOL'', amount = 5, shieldedAmount = 5, timestamp = 0,
      status = ''shielded'', commitment = ''c1'', secret = Some ''stored'', nonce = Some ''n1'',
      denomination = None, delayUntil = None\<rparr>
     \<lparr>publicKey = Some ''pk'',
      signMessage = Some (\<lambda>m.
        if m = ''WhaleVault Shield'' @ [CHR 0x0A] @ ''Nonce: n1'' @ [CHR 0x0A] @
               ''Chain ID: solana-devnet'' @ [CHR 0x0A] @ ''Version: 1''
        then Inr ''sig'' else Inl ''unexpected message'')\<rparr>
   = (Inr ''7369676e317768616c657661756c742d7365637265742d7631'',
      [''WhaleVault Shield'' @ [CHR 0x0A] @ ''Nonce: n1'' @ [CHR 0x0A] @
       ''Chain ID: solana-devnet'' @ [CHR 0x0A] @ ''Version: 1'']) \<and>
   getPositionSecret (\<lambda>k s i. k @ s @ i)
     \<lparr>id_pos = ''c1'', token = ''SOL'', amount = 5, shieldedAmount = 5, timestamp = 0,
      status = ''shielded'', commitment = ''c1'', secret = Some ''stored'', nonce = Some ''n1'',
      denomination = None, delayUntil = None\<rparr>
     \<lparr>publicKey = None, signMessage = Some (\<lambda>m. Inr ''sig'')\<rparr>
   = (Inl ''Wallet not connected'', []) \<and>
   getPositionSecret (\<lambda>k s i. k @ s @ i)
     \<lparr>id_pos = ''c1'', token = ''SOL'', amount = 5, shieldedAmount = 5, timestamp = 0,
      status = ''shielded'', commitment = ''c1'', secret = Some ''stored'', nonce = Some '''',
      denomination = None, delayUntil = None\<rparr>
     \<lparr>publicKey = Some ''pk'', signMessage = Some (\<lambda>m. Inr ''sig'')\<rparr>
   = (Inr ''stored'', []) \<and>
   getPositionSecret (\<lambda>k s i. k @ s @ i)
     \<lparr>id_pos = ''c1'', token = ''SOL'', amount = 5, shieldedAmount = 5, timestamp = 0,
      status = ''shielded'', commitment = ''c1'', secret = None, nonce = None,
      denomination = None, delayUntil = None\<rparr>
     \<lparr>publicKey = Some ''pk'', signMessage = Some (\<lambda>m. Inr ''sig'')\<rparr>
   = (Inl (''This position cannot be unshielded. It was created without a nonce and '' @
           ''has no stored secret.''), [])"
proof -
  let ?h = "\<lambda>k s i :: string. k @ s @ i"
  let ?m = "''WhaleVault Shield'' @ [CHR 0x0A] @ ''Nonce: n1'' @ [CHR 0x0A] @
               ''Chain ID: solana-devnet'' @ [CHR 0x0A] @ ''Version: 1''"
  let ?sign = "\<lambda>m. if m = ?m then Inr ''sig'' else (Inl ''unexpected message'' :: string + string)"
  let ?ws = "\<lparr>publicKey = Some ''pk'', signMessage = Some ?sign\<rparr>"
  let ?w = "\<lparr>publicKey = Some ''pk'', signMessage = Some (\<lambda>m. Inr ''sig'' :: string + string)\<rparr>"
  let ?wn = "\<lparr>publicKey = None, signMessage = Some (\<lambda>m. Inr ''sig'' :: string + string)\<rparr>"
  let ?p = "\<lambda>s n. \<lparr>id_pos = ''c1'', token = ''SOL'', amount = 5, shieldedAmount = 5, timestamp = 0,
      status = ''shielded'', commitment = ''c1'', secret = s, nonce = n,
      denomination = None, delayUntil = None\<rparr>"
  have enc: "utf8_encode (''WhaleVault Shield'' @ [CHR 0x0A] @ ''Nonce: '' @ ''n1'' @ [CHR 0x0A] @
                  ''Chain ID: solana-devnet'' @ [CHR 0x0A] @ ''Version: 1'') = ?m"
    by (simp add: utf8_encode_def)
  have hex: "toHex (?h ''sig'' (utf8_encode ''n1'') (utf8_encode ''whalevault-secret-v1''))
      = ''7369676e317768616c657661756c742d7365637265742d7631''"
    by (simp add: utf8_encode_def toHex_def)
  have pre: "nonce (?p (Some ''stored'') (Some ''n1'')) = Some ''n1'' \<and> ''n1'' \<noteq> []"
    by simp
  have a: "getPositionSecret ?h (?p (Some ''stored'') (Some ''n1'')) ?ws
    = (Inr ''7369676e317768616c657661756c742d7365637265742d7631'', [?m])"
  proof -
    have sig: "publicKey ?ws = Some ''pk'' \<and> signMessage ?ws = Some ?sign \<and>
        ?sign (utf8_encode (''WhaleVault Shield'' @ [CHR 0x0A] @ ''Nonce: '' @ ''n1'' @ [CHR 0x0A] @
                  ''Chain ID: solana-devnet'' @ [CHR 0x0A] @ ''Version: 1'')) = Inr ''sig''"
      unfolding enc by simp
    from getPositionSecret_resolution_order [of "?p (Some ''stored'') (Some ''n1'')" ?h ?ws,
        THEN conjunct1, THEN spec, THEN mp, OF pre, THEN conjunct2, THEN conjunct2, THEN spec,
        THEN spec, THEN spec, THEN mp, OF sig]
    show ?thesis unfolding enc hex .
  qed
  have a0: "getPositionSecret ?h (?p (Some ''stored'') (Some ''n1'')) ?wn
    = (Inl ''Wallet not connected'', [])"
    using getPositionSecret_resolution_order [of "?p (Some ''stored'') (Some ''n1'')" ?h ?wn,
        THEN conjunct1, THEN spec, THEN mp, OF pre, THEN conjunct2, THEN conjunct1]
    by simp
  have b: "getPositionSecret ?h (?p (Some ''stored'') (Some '''')) ?w = (Inr ''stored'', [])"
    using getPositionSecret_resolution_order [of "?p (Some ''stored'') (Some '''')" ?h ?w,
        THEN conjunct2, THEN conjunct1, THEN spec, of "''stored''"]
    by simp
  have c: "getPositionSecret ?h (?p None None) ?w
    = (Inl (''This position cannot be unshielded. It was created without a nonce and '' @
           ''has no stored secret.''), [])"
    using getPositionSecret_resolution_order [of "?p None None" ?h ?w,
        THEN conjunct2, THEN conjunct2]
    by simp
  from a a0 b c show ?thesis by (intro conjI)
qed

lemma find_None_iff_commitment:
  "find (\<lambda>p. commitment p = c) ps = None \<longleftrightarrow> c \<notin> commitment ` set ps"
  by (auto simp: find_None_iff)

text \<open>
  C7. When the imported data carries a commitment that a stored position already has,
  \<open>handleImport\<close> reports "This transfer has already been imported" and leaves the
  stored positions as they were; and whatever the input, stored commitments that were
  pairwise distinct before an import are pairwise distinct after it.
\<close>

theorem handleImport_rejects_duplicate_commitment:
  "(\<forall>d. import_input pg = Inr d \<and> commitment_pt d \<in> commitment ` set (storePositions pg) \<longrightarrow>
      handleImport FD now pg = pg\<lparr>importError := Some ''This transfer has already been imported''\<rparr> \<and>
      storePositions (handleImport FD now pg) = storePositions pg) \<and>
   (distinct (map commitment (storePositions pg)) \<longrightarrow>
      distinct (map commitment (storePositions (handleImport FD now pg))))"
proof -
  have dup: "handleImport FD now pg = pg\<lparr>importError := Some ''This transfer has already been imported''\<rparr>"
    if "import_input pg = Inr d" "commitment_pt d \<in> commitment ` set (storePositions pg)" for d
  proof -
    from that(2) have "find (\<lambda>p. commitment p = commitment_pt d) (storePositions pg) \<noteq> None"
      by (simp add: find_None_iff_commitment)
    then show ?thesis
      using that(1) by (auto simp: handleImport_def split: option.splits)
  qed
  have inv: "distinct (map commitment (storePositions (handleImport FD now pg)))"
    if "distinct (map commitment (storePositions pg))"
  proof (cases "import_input pg")
    case (Inl e)
    then show ?thesis using that by (simp add: handleImport_def)
  next
    case (Inr d)
    show ?thesis
    proof (cases "find (\<lambda>p. commitment p = commitment_pt d) (storePositions pg)")
      case None
      then have "commitment_pt d \<notin> commitment ` set (storePositions pg)"
        by (simp add: find_None_iff_commitment)
      then show ?thesis
        using that Inr None by (simp add: handleImport_def addPosition_def Let_def)
    next
      case (Some existing)
      then show ?thesis using that Inr by (simp add: handleImport_def)
    qed
  qed
  show ?thesis
    using dup inv by simp
qed


lemma regex_search_Some: "regex_search re_at t = Some m \<Longrightarrow> \<exists>u. re_at u = Some m"
  by (induction t) (auto split: option.splits)

lemma hex64_Some: "hex64 t = Some h \<Longrightarrow> length h = 64 \<and> list_all isHexDigit h"
  by (auto simp: hex64_def split: if_splits)

lemma secret_re_at_Some: "secret_re_at t = Some h \<Longrightarrow> length h = 64 \<and> list_all isHexDigit h"
  by (auto simp: secret_re_at_def split: option.splits dest: hex64_Some)

lemma commitment_re_at_Some:
  "commitment_re_at t = Some h \<Longrightarrow> length h = 64 \<and> list_all isHexDigit h"
  by (auto simp: commitment_re_at_def split: option.splits dest: hex64_Some)

lemma parseTransferDetails_eval:
  "t \<noteq> [] \<Longrightarrow> regex_search secret_re_at (trim t) = Some hs \<Longrightarrow>
   regex_search commitment_re_at (trim t) = Some hc \<Longrightarrow>
   regex_search amount_re_at (trim t) = Some ds \<Longrightarrow> parseInt10 ds = Some a \<Longrightarrow>
   parseTransferDetails t =
     (if a \<le> 0 then Inl ''Amount must be a positive number''
      else Inr \<lparr>secret_pt = toLowerCase hs, commitment_pt = toLowerCase hc, amount_pt = a\<rparr>)"
  by (simp add: parseTransferDetails_def Let_def)

lemma parseTransferDetails_Inr_matches:
  assumes "parseTransferDetails t = Inr d"
  shows "\<exists>hs hc ds a. regex_search secret_re_at (trim t) = Some hs \<and>
           regex_search commitment_re_at (trim t) = Some hc \<and>
           regex_search amount_re_at (trim t) = Some ds \<and> parseInt10 ds = Some a \<and> 0 < a \<and>
           d = \<lparr>secret_pt = toLowerCase hs, commitment_pt = toLowerCase hc, amount_pt = a\<rparr>"
proof -
  have ne: "t \<noteq> []"
    using assms by (cases "t = []") (simp_all add: parseTransferDetails_def)
  have "\<exists>hs. regex_search secret_re_at (trim t) = Some hs"
  proof (cases "regex_search secret_re_at (trim t)")
    case None
    then show ?thesis using assms ne by (simp add: parseTransferDetails_def Let_def)
  qed simp
  then obtain hs where s: "regex_search secret_re_at (trim t) = Some hs" ..
  have "\<exists>hc. regex_search commitment_re_at (trim t) = Some hc"
  proof (cases "regex_search commitment_re_at (trim t)")
    case None
    then show ?thesis using assms ne s by (simp add: parseTransferDetails_def Let_def)
  qed simp
  then obtain hc where c: "regex_search commitment_re_at (trim t) = Some hc" ..
  have "\<exists>ds. regex_search amount_re_at (trim t) = Some ds"
  proof (cases "regex_search amount_re_at (trim t)")
    case None
    then show ?thesis using assms ne s c by (simp add: parseTransferDetails_def Let_def)
  qed simp
  then obtain ds where m: "regex_search amount_re_at (trim t) = Some ds" ..
  have "\<exists>a. parseInt10 ds = Some a"
  proof (cases "parseInt10 ds")
    case None
    then show ?thesis using assms ne s c m by (simp add: parseTransferDetails_def Let_def)
  qed simp
  then obtain a where a: "parseInt10 ds = Some a" ..
  note ev = parseTransferDetails_eval [OF ne s c m a]
  have pos: "0 < a"
    using assms ev by (cases "a \<le> 0") simp_all
  have d: "d = \<lparr>secret_pt = toLowerCase hs, commitment_pt = toLowerCase hc, amount_pt = a\<rparr>"
    using assms ev pos by simp
  show ?thesis
    by (intro exI [of _ hs] exI [of _ hc] exI [of _ ds] exI [of _ a] conjI s c m a pos d)
qed

lemma parseTransferDetails_Inr:
  assumes "parseTransferDetails t = Inr d"
  shows "\<exists>hs hc. length hs = 64 \<and> list_all isHexDigit hs \<and> secret_pt d = toLowerCase hs \<and>
           length hc = 64 \<and> list_all isHexDigit hc \<and> commitment_pt d = toLowerCase hc \<and>
           0 < amount_pt d"
proof -
  from parseTransferDetails_Inr_matches [OF assms] obtain hs hc ds a where
    all: "regex_search secret_re_at (trim t) = Some hs \<and>
           regex_search commitment_re_at (trim t) = Some hc \<and>
           regex_search amount_re_at (trim t) = Some ds \<and> parseInt10 ds = Some a \<and> 0 < a \<and>
           d = \<lparr>secret_pt = toLowerCase hs, commitment_pt = toLowerCase hc, amount_pt = a\<rparr>"
    by (elim exE)
  have s: "regex_search secret_re_at (trim t) = Some hs"
    and c: "regex_search commitment_re_at (trim t) = Some hc"
    and a: "0 < a"
    and d: "d = \<lparr>secret_pt = toLowerCase hs, commitment_pt = toLowerCase hc, amount_pt = a\<rparr>"
    using all by simp_all
  from regex_search_Some [OF s] obtain u where "secret_re_at u = Some hs" by (elim exE)
  then have hs: "length hs = 64 \<and> list_all isHexDigit hs" by (rule secret_re_at_Some)
  from regex_search_Some [OF c] obtain v where "commitment_re_at v = Some hc" by (elim exE)
  then have hc: "length hc = 64 \<and> list_all isHexDigit hc" by (rule commitment_re_at_Some)
  have "secret_pt d = toLowerCase hs" "commitment_pt d = toLowerCase hc" "amount_pt d = a"
    by (simp_all add: d)
  with hs hc a show ?thesis
    by (intro exI [of _ hs] exI [of _ hc]) simp
qed


lemma length_trim_le: "length (trim s) \<le> length s"
proof -
  have "length (dropWhile isWhiteSpace (rev (dropWhile isWhiteSpace s)))
      \<le> length (rev (dropWhile isWhiteSpace s))"
    by (rule length_dropWhile_le)
  also have "\<dots> \<le> length s" by (simp add: length_dropWhile_le)
  finally show ?thesis by (simp add: trim_def)
qed

lemma validateManualEntry_Inr:
  assumes "validateManualEntry s c a = Inr d"
  shows "64 \<le> length (secret_pt d)"
proof -
  from assms have v: "validateHex64 (trim s)" and d: "secret_pt d = toLowerCase (trim s)"
    by (auto simp: validateManualEntry_def Let_def split: if_splits option.splits)
  from v have "length (trim (trim s)) = 64" by (simp add: validateHex64_def)
  with length_trim_le [of "trim s"] have "64 \<le> length (trim s)" by simp
  with d show ?thesis by (simp add: toLowerCase_def)
qed

lemma import_input_secret_nonempty: "import_input pg = Inr d \<Longrightarrow> secret_pt d \<noteq> []"
proof -
  assume a: "import_input pg = Inr d"
  show ?thesis
  proof (cases "importInputMode pg")
    case paste
    with a have "parseTransferDetails (pasteText pg) = Inr d"
      by (auto simp: import_input_def split: sum.splits)
    from parseTransferDetails_Inr [OF this] show ?thesis
      by (auto simp: toLowerCase_def)
  next
    case manual
    with a have "validateManualEntry (manualSecret pg) (manualCommitment pg) (manualAmount pg) = Inr d"
      by (auto simp: import_input_def split: sum.splits)
    from validateManualEntry_Inr [OF this] show ?thesis by auto
  qed
qed

text \<open>
  C10. A successful import appends exactly one position; every position that an import
  adds to the store carries the supplied secret, non-empty, in its \<open>secret\<close> field, has no
  nonce, has its commitment as its id and the status "shielded"; and
  \<open>getPositionSecret\<close> on it returns that secret, for every wallet, without asking the
  wallet to sign anything.
\<close>

theorem handleImport_position_stores_secret:
  "(\<forall>d. import_input pg = Inr d \<and> commitment_pt d \<notin> commitment ` set (storePositions pg) \<longrightarrow>
      (\<exists>pos. importedPosition (handleImport FD now pg) = Some pos \<and>
             storePositions (handleImport FD now pg) = storePositions pg @ [pos])) \<and>
   (\<forall>pos. pos \<in> set (storePositions (handleImport FD now pg)) \<and> pos \<notin> set (storePositions pg) \<longrightarrow>
      (\<exists>d. import_input pg = Inr d \<and> secret pos = Some (secret_pt d) \<and> secret_pt d \<noteq> [] \<and>
           nonce pos = None \<and> id_pos pos = commitment pos \<and> commitment pos = commitment_pt d \<and>
           status pos = ''shielded'' \<and>
           (\<forall>hkdf w. getPositionSecret hkdf pos w = (Inr (secret_pt d), []))))"
proof -
  have created: "\<exists>pos. importedPosition (handleImport FD now pg) = Some pos \<and>
             storePositions (handleImport FD now pg) = storePositions pg @ [pos]"
    if "import_input pg = Inr d" "commitment_pt d \<notin> commitment ` set (storePositions pg)" for d
  proof -
    from that(2) have "find (\<lambda>p. commitment p = commitment_pt d) (storePositions pg) = None"
      by (simp add: find_None_iff_commitment)
    then show ?thesis
      using that(1) by (simp add: handleImport_def addPosition_def Let_def)
  qed
  have props: "\<exists>d. import_input pg = Inr d \<and> secret pos = Some (secret_pt d) \<and> secret_pt d \<noteq> [] \<and>
           nonce pos = None \<and> id_pos pos = commitment pos \<and> commitment pos = commitment_pt d \<and>
           status pos = ''shielded'' \<and>
           (\<forall>hkdf w. getPositionSecret hkdf pos w = (Inr (secret_pt d), []))"
    if new: "pos \<in> set (storePositions (handleImport FD now pg))" "pos \<notin> set (storePositions pg)"
    for pos
  proof (cases "import_input pg")
    case (Inl e)
    with new show ?thesis by (simp add: handleImport_def)
  next
    case (Inr d)
    have ne: "secret_pt d \<noteq> []" using Inr by (rule import_input_secret_nonempty)
    show ?thesis
    proof (cases "find (\<lambda>p. commitment p = commitment_pt d) (storePositions pg)")
      case (Some existing)
      with new Inr show ?thesis by (simp add: handleImport_def)
    next
      case None
      with new Inr have pos: "pos = \<lparr>id_pos = commitment_pt d, token = ''SOL'', amount = amount_pt d,
                       shieldedAmount = amount_pt d, timestamp = now, status = ''shielded'',
                       commitment = commitment_pt d, secret = Some (secret_pt d), nonce = None,
                       denomination = detectDenomination FD (amount_pt d),
                       delayUntil = None\<rparr>"
        by (simp add: handleImport_def addPosition_def Let_def)
      have "getPositionSecret hkdf pos w = (Inr (secret_pt d), [])" for hkdf w
        using ne by (simp add: pos getPositionSecret_def hasNonce_def hasLegacySecret_def)
      then show ?thesis
        using Inr ne by (simp add: pos)
    qed
  qed
  show ?thesis
    using created props by blast
qed



lemma trim_replicate: "\<not> isWhiteSpace c \<Longrightarrow> trim (replicate n c) = replicate n c"
  by (simp add: trim_def)

lemma validateManualEntry_example:
  "validateManualEntry (replicate 64 CHR ''a'') (replicate 64 CHR ''B'') ''5''
   = Inr \<lparr>secret_pt = replicate 64 CHR ''a'', commitment_pt = replicate 64 CHR ''b'', amount_pt = 5\<rparr>"
proof -
  have ws: "\<not> isWhiteSpace CHR ''a''" "\<not> isWhiteSpace CHR ''B''" "\<not> isWhiteSpace CHR ''5''"
    by (simp_all add: isWhiteSpace_def)
  have hx: "isHexDigit CHR ''a''" "isHexDigit CHR ''B''"
    by (simp_all add: isHexDigit_def)
  have v: "validateHex64 (replicate 64 CHR ''a'')" "validateHex64 (replicate 64 CHR ''B'')"
    using hx by (simp_all add: validateHex64_def trim_replicate ws list_all_iff)
  have lo: "toLowerCase (replicate 64 CHR ''a'') = replicate 64 CHR ''a''"
    "toLowerCase (replicate 64 CHR ''B'') = replicate 64 CHR ''b''"
    by (simp_all add: toLowerCase_def ascii_lower_def)
  have t5: "trim ''5'' = ''5''"
    by (simp add: trim_def ws)
  have p: "parseInt10 ''5'' = Some 5"
    by (simp add: parseInt10_def ws isDigit_def digits_value_def digit_value_def)
  show ?thesis
    using v by (simp add: validateManualEntry_def trim_replicate ws lo t5 p)
qed

theorem handleImport_rejects_duplicate_commitment_witness:
  "handleImport [] 7
     \<lparr>importInputMode = manual, pasteText = [], manualSecret = replicate 64 CHR ''a'',
      manualCommitment = replicate 64 CHR ''B'', manualAmount = ''5'', importError = None,
      showImportSuccess = False, importedPosition = None,
      storePositions =
        [\<lparr>id_pos = ''p0'', token = ''SOL'', amount = 9, shieldedAmount = 9, timestamp = 1,
          status = ''shielded'', commitment = replicate 64 CHR ''b'', secret = None,
          nonce = Some ''n0'', denomination = None, delayUntil = None\<rparr>]\<rparr>
   = \<lparr>importInputMode = manual, pasteText = [], manualSecret = replicate 64 CHR ''a'',
      manualCommitment = replicate 64 CHR ''B'', manualAmount = ''5'',
      importError = Some ''This transfer has already been imported'',
      showImportSuccess = False, importedPosition = None,
      storePositions =
        [\<lparr>id_pos = ''p0'', token = ''SOL'', amount = 9, shieldedAmount = 9, timestamp = 1,
          status = ''shielded'', commitment = replicate 64 CHR ''b'', secret = None,
          nonce = Some ''n0'', denomination = None, delayUntil = None\<rparr>]\<rparr>"
proof -
  let ?pos = "\<lparr>id_pos = ''p0'', token = ''SOL'', amount = 9, shieldedAmount = 9, timestamp = 1,
          status = ''shielded'', commitment = replicate 64 CHR ''b'', secret = None,
          nonce = Some ''n0'', denomination = None, delayUntil = None\<rparr>"
  let ?pg = "\<lparr>importInputMode = manual, pasteText = [], manualSecret = replicate 64 CHR ''a'',
      manualCommitment = replicate 64 CHR ''B'', manualAmount = ''5'', importError = None,
      showImportSuccess = False, importedPosition = None, storePositions = [?pos]\<rparr>"
  let ?d = "\<lparr>secret_pt = replicate 64 CHR ''a'', commitment_pt = replicate 64 CHR ''b'', amount_pt = 5\<rparr>"
  have pre: "import_input ?pg = Inr ?d \<and> commitment_pt ?d \<in> commitment ` set (storePositions ?pg)"
    by (simp add: import_input_def validateManualEntry_example)
  from handleImport_rejects_duplicate_commitment [of ?pg "[]" 7, THEN conjunct1, THEN spec,
      THEN mp, OF pre, THEN conjunct1]
  show ?thesis by simp
qed

theorem handleImport_position_stores_secret_witness:
  "storePositions (handleImport [] 7
     \<lparr>importInputMode = manual, pasteText = [], manualSecret = replicate 64 CHR ''a'',
      manualCommitment = replicate 64 CHR ''B'', manualAmount = ''5'', importError = None,
      showImportSuccess = False, importedPosition = None, storePositions = []\<rparr>)
   = [\<lparr>id_pos = replicate 64 CHR ''b'', token = ''SOL'', amount = 5, shieldedAmount = 5,
       timestamp = 7, status = ''shielded'', commitment = replicate 64 CHR ''b'',
       secret = Some (replicate 64 CHR ''a''), nonce = None, denomination = None,
       delayUntil = None\<rparr>] \<and>
   getPositionSecret (\<lambda>k s i. k)
     \<lparr>id_pos = replicate 64 CHR ''b'', token = ''SOL'', amount = 5, shieldedAmount = 5,
       timestamp = 7, status = ''shielded'', commitment = replicate 64 CHR ''b'',
       secret = Some (replicate 64 CHR ''a''), nonce = None, denomination = None,
       delayUntil = None\<rparr>
     \<lparr>publicKey = None, signMessage = None\<rparr>
   = (Inr (replicate 64 CHR ''a''), [])"
proof -
  let ?pg = "\<lparr>importInputMode = manual, pasteText = [], manualSecret = replicate 64 CHR ''a'',
      manualCommitment = replicate 64 CHR ''B'', manualAmount = ''5'', importError = None,
      showImportSuccess = False, importedPosition = None, storePositions = []\<rparr>"
  let ?d = "\<lparr>secret_pt = replicate 64 CHR ''a'', commitment_pt = replicate 64 CHR ''b'', amount_pt = 5\<rparr>"
  let ?pos = "\<lparr>id_pos = replicate 64 CHR ''b'', token = ''SOL'', amount = 5, shieldedAmount = 5,
       timestamp = 7, status = ''shielded'', commitment = replicate 64 CHR ''b'',
       secret = Some (replicate 64 CHR ''a''), nonce = None, denomination = None,
       delayUntil = None\<rparr>"
  have inp: "import_input ?pg = Inr ?d"
    by (simp add: import_input_def validateManualEntry_example)
  have st: "storePositions (handleImport [] 7 ?pg) = [?pos]"
    by (simp add: handleImport_def inp addPosition_def detectDenomination_def Let_def)
  have new: "?pos \<in> set (storePositions (handleImport [] 7 ?pg)) \<and> ?pos \<notin> set (storePositions ?pg)"
    by (simp add: st)
  from handleImport_position_stores_secret [of ?pg "[]" 7, THEN conjunct2, THEN spec,
      THEN mp, OF new]
  obtain d where d: "import_input ?pg = Inr d"
    and g: "\<forall>hkdf w. getPositionSecret hkdf ?pos w = (Inr (secret_pt d), [])"
    by (elim exE conjE)
  from d inp have "d = ?d" by simp
  with g have "getPositionSecret (\<lambda>k s i. k) ?pos \<lparr>publicKey = None, signMessage = None\<rparr>
      = (Inr (replicate 64 CHR ''a''), [])"
    by simp
  with st show ?thesis by simp
qed

section \<open>Properties of the private transfer flow\<close>






lemma pollForProof_effects_positions:
  "positions (pollForProof_effects env jobId evs w) = positions w"
proof (induction evs arbitrary: w)
  case Nil
  show ?case by simp
next
  case (Cons ev evs)
  show ?case
  proof (cases ev)
    case (Probe k)
    show ?thesis
      by (cases "getProofStatus env jobId k") (simp_all add: Probe Cons.IH)
  next
    case (Sleep d)
    show ?thesis by (simp add: Sleep Cons.IH)
  qed
qed

lemma pollForProof_positions: "positions (snd (pollForProof env jobId w)) = positions w"
  by (simp add: pollForProof_def Let_def pollForProof_effects_positions split: sum.splits)

lemma pollForProof_fst: "fst (pollForProof env jobId w) = fst (pollForProof env jobId w')"
  by (simp add: pollForProof_def Let_def split: sum.splits)

lemma transfer_catch_positions:
  "positions (transfer_catch env position relayerSubmitted transferResult message w)
   = (if relayerSubmitted \<and> \<not> abortRef_in_catch env
      then updatePosition (id_pos position) (\<lambda>p. p\<lparr>status := ''transferred''\<rparr>) (positions w)
      else positions w)"
  by (simp add: transfer_catch_def Let_def)

text \<open>
  What happens to the stored positions once the relay step has succeeded: they are
  updated when the confirmation wait returns true, and otherwise (it returns false or
  throws) exactly when the flag read in the \<open>catch\<close> block is not set.
\<close>

lemma transfer_positions_after_relay:
  assumes guards: "publicKey (wallet env) \<noteq> None" "commitment position \<noteq> []"
      "32 \<le> length recipientAddress" "\<not> delay_active env position"
    and sec: "fst (getPositionSecret (hkdf_env env) position (wallet env)) = Inr derived"
    and req: "requestPrivateTransferProof env (commitment position) derived (amount position)
        recipientAddress (denomination position) = Inr jobId"
    and poll: "fst (pollForProof env jobId w) = Inr proved"
    and relay: "relayPrivateTransfer env jobId recipientAddress = Inr transferResult"
  shows "positions (transfer env position recipientAddress w)
     = (if waitForTransactionConfirmation env (signature_rt transferResult) = Inr True \<or>
           \<not> abortRef_in_catch env
        then updatePosition (id_pos position) (\<lambda>p. p\<lparr>status := ''transferred''\<rparr>) (positions w)
        else positions w)"
proof -
  have ne: "recipientAddress \<noteq> []" using guards(3) by auto
  have tr: "transfer env position recipientAddress w = transfer_try env position recipientAddress w"
    using guards ne by (auto simp: transfer_def)
  have p3: "fst (pollForProof env jobId w') = Inr proved" for w'
    using poll pollForProof_fst [of env jobId w' w] by simp
  show ?thesis
  proof (cases "waitForTransactionConfirmation env (signature_rt transferResult)")
    case (Inl e)
    then show ?thesis
      unfolding tr
      using sec req relay
      by (simp add: transfer_try_def Let_def p3 pollForProof_positions transfer_catch_positions)
  next
    case (Inr confirmed)
    then show ?thesis
      unfolding tr
      using sec req relay
      by (simp add: transfer_try_def Let_def p3 pollForProof_positions transfer_catch_positions)
  qed
qed


lemma pollWithBackoff_first_probe_done:
  assumes "0 < maxAttempts (spread_options DEFAULT_OPTIONS options)" "fn 0 = Inr v" "isDone v"
  shows "pollWithBackoff fn isDone options = \<lparr>outcome = Inr v, trace = [Probe 0]\<rparr>"
  unfolding pollWithBackoff_def Let_def
  using assms by (subst pollWithBackoff_loop.simps) simp

lemma pollForProof_example:
  "pollForProof example_env_cancelled ''job-1'' w
   = (Inr \<lparr>status_psr = ''completed'', progress = 100, stage = Some ''finalizing'',
           error_psr = None, result_psr = Some ''proof''\<rparr>,
      w\<lparr>calls := calls w @ [Call_getProofStatus 0],
        state := (state w)\<lparr>proofProgress := 100, proofStage := Some ''finalizing''\<rparr>\<rparr>)"
proof -
  let ?r = "\<lparr>status_psr = ''completed'', progress = 100, stage = Some ''finalizing'',
           error_psr = None, result_psr = Some ''proof''\<rparr>"
  have run: "pollWithBackoff (pollForProof_probe example_env_cancelled ''job-1'')
       (\<lambda>response. status_psr response = ''completed'' \<or> status_psr response = ''failed'')
       (PROOF_POLLING_CONFIG example_env_cancelled)
     = \<lparr>outcome = Inr ?r, trace = [Probe 0]\<rparr>"
    by (rule pollWithBackoff_first_probe_done)
       (simp_all add: example_env_cancelled_def example_env_def spread_options_def
          DEFAULT_OPTIONS_def pollForProof_probe_def)
  show ?thesis
    by (simp add: pollForProof_def run)
       (simp add: example_env_cancelled_def example_env_def)
qed

text \<open>
  C3, evaluated where the code departs from it. The relay step succeeds (the call log
  ends with the relay and the confirmation wait), the confirmation wait returns false
  and the hook has been cancelled by then: \<open>transfer\<close> returns from its \<open>catch\<close> block
  before the line that marks the position, the stored position keeps the status
  "shielded", and the hook's state stays at "confirming".
\<close>

theorem transfer_cancelled_after_relay_leaves_position:
  "transfer example_env_cancelled example_position example_recipient example_world
   = \<lparr>state = \<lparr>status_st = confirming, error_st = None, txSignature = None, proofProgress = 100,
               proofStage = Some ''Confirming transaction...'', recipientSecret = None,
               newCommitment = None\<rparr>,
      positions = [example_position], transactions = [],
      calls = [Call_getPositionSecret, Call_requestPrivateTransferProof, Call_getProofStatus 0,
               Call_relayPrivateTransfer, Call_waitForTransactionConfirmation]\<rparr> \<and>
   status example_position = ''shielded''"
proof -
  have g: "publicKey (wallet example_env_cancelled) \<noteq> None" "commitment example_position \<noteq> []"
    "example_recipient \<noteq> []" "\<not> length example_recipient < 32"
    "\<not> delay_active example_env_cancelled example_position"
    by (simp_all add: example_env_cancelled_def example_env_def example_position_def
        example_recipient_def delay_active_def)
  have gs: "getPositionSecret (hkdf_env example_env_cancelled) example_position
      (wallet example_env_cancelled) = (Inr ''5ec4e7'', [])"
    by (simp add: getPositionSecret_def hasNonce_def hasLegacySecret_def example_position_def)
  have calls: "requestPrivateTransferProof example_env_cancelled c s a r d = Inr ''job-1''"
    "relayPrivateTransfer example_env_cancelled j r
     = Inr \<lparr>signature_rt = ''sig-1'', amount_rt = 1000000000,
                     recipientSecret_rt = ''aa'', newCommitment_rt = ''bb''\<rparr>"
    "waitForTransactionConfirmation example_env_cancelled x = Inr False"
    "abortRef_in_catch example_env_cancelled" for c s a r d j x
    by (simp_all add: example_env_cancelled_def example_env_def)
  have "transfer example_env_cancelled example_position example_recipient example_world
      = transfer_try example_env_cancelled example_position example_recipient example_world"
    using g by (auto simp: transfer_def)
  also have "\<dots> = \<lparr>state = \<lparr>status_st = confirming, error_st = None, txSignature = None,
               proofProgress = 100,
               proofStage = Some ''Confirming transaction...'', recipientSecret = None,
               newCommitment = None\<rparr>,
      positions = [example_position], transactions = [],
      calls = [Call_getPositionSecret, Call_requestPrivateTransferProof, Call_getProofStatus 0,
               Call_relayPrivateTransfer, Call_waitForTransactionConfirmation]\<rparr>"
    by (simp add: transfer_try_def Let_def gs calls pollForProof_example transfer_catch_def
        example_world_def)
  finally show ?thesis
    by (simp add: example_position_def)
qed

section \<open>Properties of the import parser\<close>

lemma isHexDigit_not_ws: "isHexDigit c \<Longrightarrow> \<not> isWhiteSpace c"
  unfolding isHexDigit_def
  by (simp only: set_simps insert_iff empty_iff, elim disjE FalseE)
     (simp_all add: isWhiteSpace_def)

lemma isDigit_not_ws: "isDigit c \<Longrightarrow> \<not> isWhiteSpace c"
  unfolding isDigit_def
  by (simp only: set_simps insert_iff empty_iff, elim disjE FalseE)
     (simp_all add: isWhiteSpace_def)

lemma isDigit_not_sign: "isDigit c \<Longrightarrow> c \<noteq> CHR ''-'' \<and> c \<noteq> CHR ''+''"
  unfolding isDigit_def
  by (simp only: set_simps insert_iff empty_iff, elim disjE FalseE) simp_all

lemma isLowerHexDigit_hex: "isLowerHexDigit c \<Longrightarrow> isHexDigit c"
  unfolding isLowerHexDigit_def
  by (simp only: set_simps insert_iff empty_iff, elim disjE FalseE)
     (simp_all add: isHexDigit_def)

lemma isLowerHexDigit_lower: "isLowerHexDigit c \<Longrightarrow> ascii_lower c = c"
  unfolding isLowerHexDigit_def
  by (simp only: set_simps insert_iff empty_iff, elim disjE FalseE)
     (simp_all add: ascii_lower_def)

lemma isHexDigit_lower: "isHexDigit c \<Longrightarrow> isLowerHexDigit (ascii_lower c)"
  unfolding isHexDigit_def
  by (simp only: set_simps insert_iff empty_iff, elim disjE FalseE)
     (simp_all add: ascii_lower_def isLowerHexDigit_def)

lemma hex64_lower_hex: "hex64_lower s \<Longrightarrow> length s = 64 \<and> list_all isHexDigit s"
  by (simp add: hex64_lower_def list_all_iff isLowerHexDigit_hex)

lemma hex64_lower_toLowerCase: "hex64_lower s \<Longrightarrow> toLowerCase s = s"
  unfolding hex64_lower_def toLowerCase_def
  by (intro map_idI) (simp add: list_all_iff isLowerHexDigit_lower)

lemma toLowerCase_hex64_lower:
  "length h = 64 \<Longrightarrow> list_all isHexDigit h \<Longrightarrow> hex64_lower (toLowerCase h)"
  by (simp add: hex64_lower_def toLowerCase_def list_all_iff isHexDigit_lower)

lemma less_10_cases:
  "d < 10 \<Longrightarrow> d = 0 \<or> d = 1 \<or> d = 2 \<or> d = 3 \<or> d = 4 \<or> d = 5 \<or> d = 6 \<or> d = 7 \<or> d = 8 \<or> d = (9::nat)"
  by arith

lemma digit_char_isDigit: "d < 10 \<Longrightarrow> isDigit (digit_char d)"
  by (drule less_10_cases, elim disjE) (simp_all add: digit_char_def isDigit_def)

lemma digit_value_digit_char: "d < 10 \<Longrightarrow> digit_value (digit_char d) = d"
  by (drule less_10_cases, elim disjE) (simp_all add: digit_char_def digit_value_def)

lemma decimal_nonempty: "decimal n \<noteq> []"
  by (subst decimal.simps) simp

lemma decimal_digits: "list_all isDigit (decimal n)"
proof (induction n rule: decimal.induct)
  case (1 n)
  show ?case
  proof (cases "n < 10")
    case True
    then show ?thesis by (subst decimal.simps) (simp add: digit_char_isDigit)
  next
    case False
    then show ?thesis
      using 1 by (subst decimal.simps) (simp add: digit_char_isDigit)
  qed
qed

lemma digits_value_snoc: "digits_value (ds @ [d]) = 10 * digits_value ds + digit_value d"
  by (simp add: digits_value_def)

lemma digits_value_decimal: "digits_value (decimal n) = n"
proof (induction n rule: decimal.induct)
  case (1 n)
  show ?case
  proof (cases "n < 10")
    case True
    then show ?thesis
      by (subst decimal.simps) (simp add: digits_value_def digit_value_digit_char)
  next
    case False
    then have "digits_value (decimal (n div 10)) = n div 10" using 1 by simp
    then show ?thesis
      using False
      by (subst decimal.simps) (simp add: digits_value_snoc digit_value_digit_char)
  qed
qed

lemma takeWhile_all: "list_all P xs \<Longrightarrow> takeWhile P xs = xs"
  by (simp add: list_all_iff)

lemma parseInt10_decimal: "parseInt10 (decimal n) = Some (int n)"
proof -
  obtain d ds where ds: "decimal n = d # ds"
    using decimal_nonempty [of n] by (cases "decimal n") auto
  have dig: "list_all isDigit (d # ds)" using decimal_digits [of n] ds by simp
  then have d: "isDigit d" by simp
  have nws: "\<not> isWhiteSpace d" using d by (rule isDigit_not_ws)
  have nsign: "d \<noteq> CHR ''-''" "d \<noteq> CHR ''+''" using isDigit_not_sign [OF d] by simp_all
  have tw: "takeWhile isDigit (d # ds) = d # ds" using dig by (rule takeWhile_all)
  have "parseInt10 (d # ds) = Some (int (digits_value (d # ds)))"
    using nws nsign tw by (simp add: parseInt10_def Let_def)
  then show ?thesis
    using digits_value_decimal [of n] ds by simp
qed


lemma regex_search_hit: "re_at t = Some m \<Longrightarrow> regex_search re_at t = Some m"
  by (cases t) simp_all

lemma ascii_upper_other:
  "c \<notin> set ''abcdefghijklmnopqrstuvwxyz'' \<Longrightarrow> ascii_upper c = c"
proof -
  assume "c \<notin> set ''abcdefghijklmnopqrstuvwxyz''"
  then have "map_of (zip ''abcdefghijklmnopqrstuvwxyz'' ''ABCDEFGHIJKLMNOPQRSTUVWXYZ'') c = None"
    by (subst map_of_zip_is_None) simp_all
  then show ?thesis by (simp only: ascii_upper_def option.case)
qed

lemma ascii_upper_letter:
  "c \<in> set ''abcdefghijklmnopqrstuvwxyz'' \<Longrightarrow>
   ascii_upper c \<in> set ''ABCDEFGHIJKLMNOPQRSTUVWXYZ''"
  by (simp only: set_simps insert_iff empty_iff, elim disjE FalseE)
     (simp_all add: ascii_upper_def)

lemma ascii_upper_colon: "ascii_upper c = CHR '':'' \<Longrightarrow> c = CHR '':''"
proof (cases "c \<in> set ''abcdefghijklmnopqrstuvwxyz''")
  case True
  assume "ascii_upper c = CHR '':''"
  with ascii_upper_letter [OF True] show ?thesis by simp
next
  case False
  assume "ascii_upper c = CHR '':''"
  with ascii_upper_other [OF False] show ?thesis by simp
qed

lemma match_ci_colon:
  "match_ci kw t = Some r \<Longrightarrow> kw \<noteq> [] \<Longrightarrow> last kw = CHR '':'' \<Longrightarrow>
   length kw \<le> length t \<and> t ! (length kw - 1) = CHR '':''"
proof (induction kw t rule: match_ci.induct)
  case (1 t)
  then show ?case by simp
next
  case (2 p ps)
  then show ?case by simp
next
  case (3 p ps c cs)
  from "3.prems"(1) have eq: "ascii_upper c = ascii_upper p" and m: "match_ci ps cs = Some r"
    by (simp_all split: if_splits)
  show ?case
  proof (cases "ps = []")
    case True
    with "3.prems"(3) have "p = CHR '':''" by simp
    with eq have "ascii_upper c = CHR '':''" by (simp add: ascii_upper_def)
    then have "c = CHR '':''" by (rule ascii_upper_colon)
    with True show ?thesis by simp
  next
    case False
    with "3.prems"(3) have "last ps = CHR '':''" by simp
    with "3.IH" [OF eq m False] have "length ps \<le> length cs \<and> cs ! (length ps - 1) = CHR '':''"
      by simp
    with False show ?thesis by (cases ps) simp_all
  qed
qed

lemma match_ci_no_colon:
  assumes "kw \<noteq> []" "last kw = CHR '':''" "length kw \<le> Suc (length W)"
    and "CHR '':'' \<notin> set pre" "CHR '':'' \<notin> set W" "pre \<noteq> []"
  shows "match_ci kw (pre @ W @ r) = None"
proof (rule ccontr)
  assume "match_ci kw (pre @ W @ r) \<noteq> None"
  then obtain x where "match_ci kw (pre @ W @ r) = Some x" by auto
  from match_ci_colon [OF this assms(1,2)]
  have col: "(pre @ W @ r) ! (length kw - 1) = CHR '':''" by simp
  have lt: "length kw - 1 < length (pre @ W)"
    using assms(1,3,6) by (cases pre; cases kw) simp_all
  then have "(pre @ W @ r) ! (length kw - 1) = (pre @ W) ! (length kw - 1)"
    by (metis append.assoc nth_append)
  with col have "CHR '':'' \<in> set (pre @ W)"
    using lt nth_mem by metis
  with assms(4,5) show False by simp
qed

lemma regex_search_skip_no_colon:
  assumes re: "\<And>t. match_ci kw t = None \<Longrightarrow> re_at t = None"
    and kw: "kw \<noteq> []" "last kw = CHR '':''" "length kw \<le> Suc (length W)"
    and nc: "CHR '':'' \<notin> set pre" "CHR '':'' \<notin> set W"
  shows "regex_search re_at (pre @ W @ r) = regex_search re_at (W @ r)"
  using nc(1)
proof (induction pre)
  case Nil
  show ?case by simp
next
  case (Cons c pre)
  have "match_ci kw ((c # pre) @ W @ r) = None"
    using kw Cons.prems nc(2) by (intro match_ci_no_colon) simp_all
  then have "re_at (c # pre @ W @ r) = None" using re by simp
  then show ?case using Cons by simp
qed

lemma match_ci_second:
  "ascii_upper x \<noteq> ascii_upper p2 \<Longrightarrow> match_ci (p1 # p2 # ps) (h # x # xs) = None"
  by simp

lemma regex_search_skip_run:
  assumes re: "\<And>t. match_ci (p1 # p2 # ps) t = None \<Longrightarrow> re_at t = None"
    and run: "\<And>c. c \<in> set s \<Longrightarrow> ascii_upper c \<noteq> ascii_upper p2"
    and stop: "ascii_upper c0 \<noteq> ascii_upper p2"
  shows "regex_search re_at (s @ c0 # r) = regex_search re_at (c0 # r)"
  using run
proof (induction s)
  case Nil
  show ?case by simp
next
  case (Cons h s)
  obtain x xs where nx: "s @ c0 # r = x # xs" and x: "x \<in> set s \<or> x = c0"
    by (cases s) auto
  have "ascii_upper x \<noteq> ascii_upper p2"
    using x Cons.prems stop by auto
  then have "match_ci (p1 # p2 # ps) (h # s @ c0 # r) = None"
    unfolding nx by (rule match_ci_second)
  then have "re_at (h # s @ c0 # r) = None" using re by simp
  then show ?case using Cons by simp
qed

lemma isHexDigit_upper_not_OM:
  "isHexDigit c \<Longrightarrow> ascii_upper c \<noteq> CHR ''O'' \<and> ascii_upper c \<noteq> CHR ''M''"
  unfolding isHexDigit_def
  by (simp only: set_simps insert_iff empty_iff, elim disjE FalseE)
     (simp_all add: ascii_upper_def)

lemma secret_re_at_None: "match_ci ''Secret:'' t = None \<Longrightarrow> secret_re_at t = None"
  by (simp add: secret_re_at_def)

lemma commitment_re_at_None: "match_ci ''Commitment:'' t = None \<Longrightarrow> commitment_re_at t = None"
  by (simp add: commitment_re_at_def)

lemma amount_re_at_None: "match_ci ''Amount:'' t = None \<Longrightarrow> amount_re_at t = None"
  by (simp add: amount_re_at_def)

lemma commitment_skip_hex:
  assumes "list_all isHexDigit s"
  shows "regex_search commitment_re_at (s @ CHR 0x0A # r) = regex_search commitment_re_at (CHR 0x0A # r)"
proof (rule regex_search_skip_run [where ?p1.0 = "CHR ''C''" and ?p2.0 = "CHR ''o''"
      and ps = "''mmitment:''"])
  show "commitment_re_at t = None" if "match_ci ''Commitment:'' t = None" for t
    using that by (rule commitment_re_at_None)
  show "ascii_upper c \<noteq> ascii_upper CHR ''o''" if "c \<in> set s" for c
    using that assms isHexDigit_upper_not_OM [of c] by (simp add: list_all_iff ascii_upper_def)
  show "ascii_upper CHR 0x0A \<noteq> ascii_upper CHR ''o''"
    by (simp add: ascii_upper_def)
qed

lemma amount_skip_hex:
  assumes "list_all isHexDigit s"
  shows "regex_search amount_re_at (s @ CHR 0x0A # r) = regex_search amount_re_at (CHR 0x0A # r)"
proof (rule regex_search_skip_run [where ?p1.0 = "CHR ''A''" and ?p2.0 = "CHR ''m''"
      and ps = "''ount:''"])
  show "amount_re_at t = None" if "match_ci ''Amount:'' t = None" for t
    using that by (rule amount_re_at_None)
  show "ascii_upper c \<noteq> ascii_upper CHR ''m''" if "c \<in> set s" for c
    using that assms isHexDigit_upper_not_OM [of c] by (simp add: list_all_iff ascii_upper_def)
  show "ascii_upper CHR 0x0A \<noteq> ascii_upper CHR ''m''"
    by (simp add: ascii_upper_def)
qed


lemma dropWhile_ws_hex:
  "list_all isHexDigit s \<Longrightarrow> s \<noteq> [] \<Longrightarrow> dropWhile isWhiteSpace (s @ r) = s @ r"
  by (cases s) (simp_all add: isHexDigit_not_ws)

lemma hex64_append: "length s = 64 \<Longrightarrow> list_all isHexDigit s \<Longrightarrow> hex64 (s @ r) = Some s"
  by (simp add: hex64_def)

lemma ws_space: "isWhiteSpace CHR '' ''"
  by (simp add: isWhiteSpace_def)

lemma secret_found:
  assumes "length s = 64" "list_all isHexDigit s"
  shows "secret_re_at (''Secret: '' @ s @ r) = Some s"
proof -
  have ne: "s \<noteq> []" using assms(1) by auto
  have m: "match_ci ''Secret:'' (''Secret: '' @ s @ r) = Some (CHR '' '' # s @ r)"
    by (simp add: ascii_upper_def)
  show ?thesis
    unfolding secret_re_at_def m
    by (simp add: ws_space dropWhile_ws_hex [OF assms(2) ne] hex64_append [OF assms])
qed

lemma commitment_found:
  assumes "length s = 64" "list_all isHexDigit s"
  shows "commitment_re_at (''Commitment: '' @ s @ r) = Some s"
proof -
  have ne: "s \<noteq> []" using assms(1) by auto
  have m: "match_ci ''Commitment:'' (''Commitment: '' @ s @ r) = Some (CHR '' '' # s @ r)"
    by (simp add: ascii_upper_def)
  show ?thesis
    unfolding commitment_re_at_def m
    by (simp add: ws_space dropWhile_ws_hex [OF assms(2) ne] hex64_append [OF assms])
qed

lemma amount_found:
  assumes "ds \<noteq> []" "list_all isDigit ds"
  shows "amount_re_at (''Amount: '' @ ds @ '' lamports'' @ r) = Some ds"
proof -
  define u where "u = '' lamports'' @ r"
  define v where "v = ''lamports'' @ r"
  have uv: "u = CHR '' '' # v" by (simp add: u_def v_def)
  have m: "match_ci ''Amount:'' (''Amount: '' @ ds @ u) = Some (CHR '' '' # ds @ u)"
    by (simp add: ascii_upper_def)
  have d1: "dropWhile isWhiteSpace (CHR '' '' # ds @ u) = ds @ u"
    using assms by (cases ds) (simp_all add: ws_space isDigit_not_ws)
  have nd: "\<not> isDigit CHR '' ''" by (simp add: isDigit_def)
  have tw: "takeWhile isDigit (ds @ u) = ds"
    using assms(2) nd by (simp add: uv list_all_iff)
  have dw: "dropWhile isDigit (ds @ u) = u"
    using assms(2) nd by (simp add: uv list_all_iff)
  have nl: "\<not> isWhiteSpace CHR ''l''" by (simp add: isWhiteSpace_def)
  have d2: "dropWhile isWhiteSpace u = v"
    by (simp add: uv v_def ws_space nl)
  have m2: "match_ci ''lamports'' v = Some r"
    by (simp add: v_def ascii_upper_def)
  have "amount_re_at (''Amount: '' @ ds @ u) = Some ds"
    by (simp only: amount_re_at_def m option.case Let_def d1 tw dw d2 m2 assms(1) if_False)
  then show ?thesis by (simp only: u_def)
qed

lemma dropWhile_front:
  "\<not> P a \<Longrightarrow> dropWhile P (pre @ a # x) = dropWhile P pre @ a # x"
  by (induction pre) simp_all

lemma trim_sandwich:
  assumes "\<not> isWhiteSpace a" "\<not> isWhiteSpace z"
  shows "trim (pre @ a # mid @ z # post)
     = dropWhile isWhiteSpace pre @ a # mid @ z # rev (dropWhile isWhiteSpace (rev post))"
proof -
  have 1: "dropWhile isWhiteSpace (pre @ a # mid @ z # post)
      = dropWhile isWhiteSpace pre @ a # mid @ z # post"
    using assms(1) by (rule dropWhile_front)
  have 2: "rev (dropWhile isWhiteSpace pre @ a # mid @ z # post)
      = rev post @ z # (rev mid @ a # rev (dropWhile isWhiteSpace pre))"
    by simp
  have 3: "dropWhile isWhiteSpace (rev post @ z # (rev mid @ a # rev (dropWhile isWhiteSpace pre)))
      = dropWhile isWhiteSpace (rev post) @ z # (rev mid @ a # rev (dropWhile isWhiteSpace pre))"
    using assms(2) by (rule dropWhile_front)
  show ?thesis
    unfolding trim_def 1 2 3 by simp
qed

lemma no_colon_dropWhile: "CHR '':'' \<notin> set pre \<Longrightarrow> CHR '':'' \<notin> set (dropWhile P pre)"
  using set_dropWhileD by fastforce


lemma ascii_upper_eq_cases:
  "ascii_upper c = u \<Longrightarrow>
   c = u \<or> (c, u) \<in> set (zip ''abcdefghijklmnopqrstuvwxyz'' ''ABCDEFGHIJKLMNOPQRSTUVWXYZ'')"
proof (cases "c \<in> set ''abcdefghijklmnopqrstuvwxyz''")
  case False
  assume "ascii_upper c = u"
  with ascii_upper_other [OF False] show ?thesis by simp
next
  case True
  assume u: "ascii_upper c = u"
  from True have "(c, ascii_upper c)
      \<in> set (zip ''abcdefghijklmnopqrstuvwxyz'' ''ABCDEFGHIJKLMNOPQRSTUVWXYZ'')"
    by (simp only: set_simps insert_iff empty_iff, elim disjE FalseE)
       (simp_all add: ascii_upper_def)
  with u show ?thesis by simp
qed

lemma match_ci_first:
  "c \<noteq> ascii_upper p \<Longrightarrow> c \<noteq> ascii_lower (ascii_upper p) \<Longrightarrow>
   ascii_upper p \<in> set ''ABCDEFGHIJKLMNOPQRSTUVWXYZ'' \<Longrightarrow> match_ci (p # ps) (c # cs) = None"
proof -
  assume a: "c \<noteq> ascii_upper p" "c \<noteq> ascii_lower (ascii_upper p)"
    and l: "ascii_upper p \<in> set ''ABCDEFGHIJKLMNOPQRSTUVWXYZ''"
  have "ascii_upper c \<noteq> ascii_upper p"
  proof
    assume e: "ascii_upper c = ascii_upper p"
    from ascii_upper_eq_cases [OF e] a(1)
    have z: "(c, ascii_upper p)
        \<in> set (zip ''abcdefghijklmnopqrstuvwxyz'' ''ABCDEFGHIJKLMNOPQRSTUVWXYZ'')"
      by simp
    from l z have "c = ascii_lower (ascii_upper p)"
      by (simp only: set_simps insert_iff empty_iff, elim disjE FalseE)
         (simp_all add: ascii_lower_def)
    with a(2) show False by simp
  qed
  then show ?thesis by simp
qed

lemma secret_skip1: "c \<noteq> CHR ''S'' \<Longrightarrow> c \<noteq> CHR ''s'' \<Longrightarrow> secret_re_at (c # cs) = None"
  by (rule secret_re_at_None, rule match_ci_first) (simp_all add: ascii_upper_def ascii_lower_def)

lemma commitment_skip1:
  "c \<noteq> CHR ''C'' \<Longrightarrow> c \<noteq> CHR ''c'' \<Longrightarrow> commitment_re_at (c # cs) = None"
  by (rule commitment_re_at_None, rule match_ci_first)
     (simp_all add: ascii_upper_def ascii_lower_def)

lemma amount_skip1: "c \<noteq> CHR ''A'' \<Longrightarrow> c \<noteq> CHR ''a'' \<Longrightarrow> amount_re_at (c # cs) = None"
  by (rule amount_re_at_None, rule match_ci_first) (simp_all add: ascii_upper_def ascii_lower_def)

lemma match_ci_second':
  "d \<noteq> ascii_upper p2 \<Longrightarrow> d \<noteq> ascii_lower (ascii_upper p2) \<Longrightarrow>
   ascii_upper p2 \<in> set ''ABCDEFGHIJKLMNOPQRSTUVWXYZ'' \<Longrightarrow>
   match_ci (p1 # p2 # ps) (c # d # cs) = None"
  using match_ci_first [of d p2 ps cs] by simp

lemma secret_skip2:
  "d \<noteq> CHR ''E'' \<Longrightarrow> d \<noteq> CHR ''e'' \<Longrightarrow> secret_re_at (c # d # cs) = None"
  by (rule secret_re_at_None, rule match_ci_second')
     (simp_all add: ascii_upper_def ascii_lower_def)

lemma commitment_skip2:
  "d \<noteq> CHR ''O'' \<Longrightarrow> d \<noteq> CHR ''o'' \<Longrightarrow> commitment_re_at (c # d # cs) = None"
  by (rule commitment_re_at_None, rule match_ci_second')
     (simp_all add: ascii_upper_def ascii_lower_def)

lemma amount_skip2:
  "d \<noteq> CHR ''M'' \<Longrightarrow> d \<noteq> CHR ''m'' \<Longrightarrow> amount_re_at (c # d # cs) = None"
  by (rule amount_re_at_None, rule match_ci_second')
     (simp_all add: ascii_upper_def ascii_lower_def)


lemma parseTransferDetails_block:
  assumes s: "length s = 64" "list_all isHexDigit s"
    and c: "length c = 64" "list_all isHexDigit c"
    and nc: "CHR '':'' \<notin> set pre"
    and tt: "trim text = pre @ ''WhaleVault Private Transfer'' @ [CHR 0x0A, CHR 0x0A] @
        ''Secret: '' @ s @ [CHR 0x0A] @ ''Commitment: '' @ c @ [CHR 0x0A] @
        ''Amount: '' @ decimal n @ '' lamports'' @ r"
    and ne: "text \<noteq> []" and n: "0 < n"
  shows "parseTransferDetails text
     = Inr \<lparr>secret_pt = toLowerCase s, commitment_pt = toLowerCase c, amount_pt = int n\<rparr>"
proof -
  define R where "R = '' Private Transfer'' @ [CHR 0x0A, CHR 0x0A] @
        ''Secret: '' @ s @ [CHR 0x0A] @ ''Commitment: '' @ c @ [CHR 0x0A] @
        ''Amount: '' @ decimal n @ '' lamports'' @ r"
  have T: "trim text = pre @ ''WhaleVault'' @ R"
    by (simp add: tt R_def)
  have W: "CHR '':'' \<notin> set ''WhaleVault''" by simp
  have dn: "decimal n \<noteq> []" "list_all isDigit (decimal n)"
    by (rule decimal_nonempty, rule decimal_digits)
  have S: "regex_search secret_re_at (trim text) = Some s"
  proof -
    have "regex_search secret_re_at (trim text) = regex_search secret_re_at (''WhaleVault'' @ R)"
      unfolding T using nc W
      by (intro regex_search_skip_no_colon [where kw = "''Secret:''"] secret_re_at_None) simp_all
    also have "\<dots> = Some s"
      unfolding R_def
      by (simp add: secret_skip1 secret_skip2 secret_found [OF s, simplified])
    finally show ?thesis .
  qed
  have C: "regex_search commitment_re_at (trim text) = Some c"
  proof -
    have "regex_search commitment_re_at (trim text)
        = regex_search commitment_re_at (''WhaleVault'' @ R)"
      unfolding T using nc W
      by (intro regex_search_skip_no_colon [where kw = "''Commitment:''"] commitment_re_at_None)
         simp_all
    also have "\<dots> = Some c"
      unfolding R_def
      by (simp add: commitment_skip1 commitment_skip2 commitment_skip_hex [OF s(2)]
          commitment_found [OF c, simplified])
    finally show ?thesis .
  qed
  have A: "regex_search amount_re_at (trim text) = Some (decimal n)"
  proof -
    have "regex_search amount_re_at (trim text) = regex_search amount_re_at (''WhaleVault'' @ R)"
      unfolding T using nc W
      by (intro regex_search_skip_no_colon [where kw = "''Amount:''"] amount_re_at_None) simp_all
    also have "\<dots> = Some (decimal n)"
      unfolding R_def
      by (simp add: amount_skip1 amount_skip2 amount_skip_hex [OF s(2)] amount_skip_hex [OF c(2)]
          amount_found [OF dn, simplified])
    finally show ?thesis .
  qed
  show ?thesis
    using parseTransferDetails_eval [OF ne S C A parseInt10_decimal] n by simp
qed


lemma Number_toString_nat: "Number_toString (int n) = decimal n"
  by (simp add: Number_toString_def)

lemma trim_copyAllDetails:
  assumes "amount p = int n"
  shows "trim (pre @ copyAllDetails formatSOL s c (Some p) @ post)
     = dropWhile isWhiteSpace pre @ ''WhaleVault Private Transfer'' @ [CHR 0x0A, CHR 0x0A] @
        ''Secret: '' @ s @ [CHR 0x0A] @ ''Commitment: '' @ c @ [CHR 0x0A] @
        ''Amount: '' @ decimal n @ '' lamports'' @
        ('' ('' @ formatSOL (int n) @ '' SOL)'' @ [CHR 0x0A, CHR 0x0A] @
         ''To claim: Import this position in WhaleVault using the secret and commitment above.'' @
         rev (dropWhile isWhiteSpace (rev post)))"
proof -
  define mid where "mid = ''haleVault Private Transfer'' @ [CHR 0x0A, CHR 0x0A] @
        ''Secret: '' @ s @ [CHR 0x0A] @ ''Commitment: '' @ c @ [CHR 0x0A] @
        ''Amount: '' @ decimal n @ '' lamports ('' @ formatSOL (int n) @ '' SOL)'' @
        [CHR 0x0A, CHR 0x0A] @
        ''To claim: Import this position in WhaleVault using the secret and commitment above''"
  have shape: "pre @ copyAllDetails formatSOL s c (Some p) @ post
      = pre @ CHR ''W'' # mid @ CHR ''.'' # post"
    by (simp add: copyAllDetails_def assms Number_toString_nat mid_def)
  have nw: "\<not> isWhiteSpace CHR ''W''" "\<not> isWhiteSpace CHR ''.''"
    by (simp_all add: isWhiteSpace_def)
  show ?thesis
    unfolding shape trim_sandwich [OF nw]
    by (simp add: mid_def)
qed

lemma parseTransferDetails_copyAllDetails:
  assumes s: "length s = 64" "list_all isHexDigit s"
    and c: "length c = 64" "list_all isHexDigit c"
    and a: "amount p = int n" "0 < n"
    and nc: "CHR '':'' \<notin> set pre"
  shows "parseTransferDetails (pre @ copyAllDetails formatSOL s c (Some p) @ post)
     = Inr \<lparr>secret_pt = toLowerCase s, commitment_pt = toLowerCase c, amount_pt = int n\<rparr>"
proof (rule parseTransferDetails_block [OF s c])
  show "CHR '':'' \<notin> set (dropWhile isWhiteSpace pre)"
    using nc by (rule no_colon_dropWhile)
  show "trim (pre @ copyAllDetails formatSOL s c (Some p) @ post)
     = dropWhile isWhiteSpace pre @ ''WhaleVault Private Transfer'' @ [CHR 0x0A, CHR 0x0A] @
        ''Secret: '' @ s @ [CHR 0x0A] @ ''Commitment: '' @ c @ [CHR 0x0A] @
        ''Amount: '' @ decimal n @ '' lamports'' @
        ('' ('' @ formatSOL (int n) @ '' SOL)'' @ [CHR 0x0A, CHR 0x0A] @
         ''To claim: Import this position in WhaleVault using the secret and commitment above.'' @
         rev (dropWhile isWhiteSpace (rev post)))"
    using a(1) by (rule trim_copyAllDetails)
  show "pre @ copyAllDetails formatSOL s c (Some p) @ post \<noteq> []"
    by (simp add: copyAllDetails_def Let_def)
  show "0 < n" by (rule a(2))
qed


lemma ascii_upper_class:
  "isWhiteSpace (ascii_upper c) = isWhiteSpace c \<and>
   isHexDigit (ascii_upper c) = isHexDigit c \<and>
   isDigit (ascii_upper c) = isDigit c \<and>
   ascii_upper (ascii_upper c) = ascii_upper c \<and>
   ascii_lower (ascii_upper c) = ascii_lower c"
proof (cases "c \<in> set ''abcdefghijklmnopqrstuvwxyz''")
  case False
  then show ?thesis by (simp only: ascii_upper_other [OF False] simp_thms)
next
  case True
  then show ?thesis
    by (simp only: set_simps insert_iff empty_iff, elim disjE FalseE)
       (simp_all add: ascii_upper_def ascii_lower_def isWhiteSpace_def isHexDigit_def isDigit_def)
qed

lemma isDigit_upper: "isDigit c \<Longrightarrow> ascii_upper c = c"
  unfolding isDigit_def
  by (simp only: set_simps insert_iff empty_iff, elim disjE FalseE)
     (simp_all add: ascii_upper_def)

lemma match_ci_upper:
  "match_ci p (map ascii_upper t) = map_option (map ascii_upper) (match_ci p t)"
  by (induction p t rule: match_ci.induct) (simp_all add: ascii_upper_class)

lemma dropWhile_ws_upper:
  "dropWhile isWhiteSpace (map ascii_upper t) = map ascii_upper (dropWhile isWhiteSpace t)"
  by (induction t) (simp_all add: ascii_upper_class)

lemma dropWhile_digit_upper:
  "dropWhile isDigit (map ascii_upper t) = map ascii_upper (dropWhile isDigit t)"
  by (induction t) (simp_all add: ascii_upper_class)

lemma takeWhile_digit_upper:
  "takeWhile isDigit (map ascii_upper t) = takeWhile isDigit t"
  by (induction t) (simp_all add: ascii_upper_class isDigit_upper)

lemma list_all_hex_upper: "list_all isHexDigit (map ascii_upper t) = list_all isHexDigit t"
  by (induction t) (simp_all add: ascii_upper_class)

lemma hex64_upper: "hex64 (map ascii_upper t) = map_option (map ascii_upper) (hex64 t)"
proof -
  have "take 64 (map ascii_upper t) = map ascii_upper (take 64 t)" by (rule take_map)
  then show ?thesis by (simp add: hex64_def list_all_hex_upper)
qed

lemma secret_re_at_upper:
  "secret_re_at (map ascii_upper t) = map_option (map ascii_upper) (secret_re_at t)"
  by (cases "match_ci ''Secret:'' t")
     (simp_all add: secret_re_at_def match_ci_upper dropWhile_ws_upper hex64_upper)

lemma commitment_re_at_upper:
  "commitment_re_at (map ascii_upper t) = map_option (map ascii_upper) (commitment_re_at t)"
  by (cases "match_ci ''Commitment:'' t")
     (simp_all add: commitment_re_at_def match_ci_upper dropWhile_ws_upper hex64_upper)

lemma amount_re_at_upper: "amount_re_at (map ascii_upper t) = amount_re_at t"
proof (cases "match_ci ''Amount:'' t")
  case None
  then show ?thesis by (simp add: amount_re_at_def match_ci_upper)
next
  case (Some r)
  show ?thesis
    by (cases "match_ci ''lamports''
          (dropWhile isWhiteSpace (dropWhile isDigit (dropWhile isWhiteSpace r)))")
       (simp_all add: amount_re_at_def Some match_ci_upper dropWhile_ws_upper
          dropWhile_digit_upper takeWhile_digit_upper Let_def)
qed

lemma regex_search_upper:
  assumes "\<And>t. re_at (map ascii_upper t) = map_option (map ascii_upper) (re_at t)"
  shows "regex_search re_at (map ascii_upper t) = map_option (map ascii_upper) (regex_search re_at t)"
proof (induction t)
  case Nil
  show ?case using assms [of "[]"] by simp
next
  case (Cons c t)
  show ?case
    using assms [of "c # t"] Cons by (cases "re_at (c # t)") simp_all
qed

lemma regex_search_upper_same:
  assumes "\<And>t. re_at (map ascii_upper t) = re_at t"
  shows "regex_search re_at (map ascii_upper t) = regex_search re_at t"
proof (induction t)
  case Nil
  show ?case using assms [of "[]"] by simp
next
  case (Cons c t)
  show ?case
    using assms [of "c # t"] Cons by (cases "re_at (c # t)") simp_all
qed

lemma trim_upper: "trim (map ascii_upper t) = map ascii_upper (trim t)"
  by (simp add: trim_def rev_map dropWhile_ws_upper)

lemma toLowerCase_upper: "toLowerCase (map ascii_upper h) = toLowerCase h"
  by (simp add: toLowerCase_def ascii_upper_class)

lemma parseTransferDetails_upper: "parseTransferDetails (map ascii_upper t) = parseTransferDetails t"
proof (cases "t = []")
  case True
  then show ?thesis by simp
next
  case False
  have S: "regex_search secret_re_at (trim (map ascii_upper t))
      = map_option (map ascii_upper) (regex_search secret_re_at (trim t))"
    unfolding trim_upper by (rule regex_search_upper) (rule secret_re_at_upper)
  have C: "regex_search commitment_re_at (trim (map ascii_upper t))
      = map_option (map ascii_upper) (regex_search commitment_re_at (trim t))"
    unfolding trim_upper by (rule regex_search_upper) (rule commitment_re_at_upper)
  have A: "regex_search amount_re_at (trim (map ascii_upper t))
      = regex_search amount_re_at (trim t)"
    unfolding trim_upper by (rule regex_search_upper_same) (rule amount_re_at_upper)
  show ?thesis
  proof (cases "regex_search secret_re_at (trim t)")
    case None
    then show ?thesis using False by (simp add: parseTransferDetails_def Let_def S)
  next
    case (Some hs)
    note hs = this
    show ?thesis
    proof (cases "regex_search commitment_re_at (trim t)")
      case None
      then show ?thesis using False hs by (simp add: parseTransferDetails_def Let_def S C)
    next
      case (Some hc)
      note hc = this
      show ?thesis
      proof (cases "regex_search amount_re_at (trim t)")
        case None
        then show ?thesis
          using False hs hc by (simp add: parseTransferDetails_def Let_def S C A)
      next
        case (Some ds)
        then show ?thesis
          using False hs hc
          by (cases "parseInt10 ds")
             (simp_all add: parseTransferDetails_def Let_def S C A toLowerCase_upper)
      qed
    qed
  qed
qed


text \<open>
  C6. For a secret and a commitment of 64 lower-case hexadecimal digits and a positive
  amount (a safe integer), the text of the "Copy All Details" button parses back to
  exactly that triple, whatever \<open>formatSOL\<close> prints; it still does when free text
  surrounds it (any text after it, any text without a colon before it); two inputs that
  differ only in the case of ASCII letters parse alike (the labels and the hexadecimal
  digits are matched case-insensitively); and every successful parse returns two fields
  of 64 lower-case hexadecimal digits and a positive amount.
\<close>

theorem parseTransferDetails_roundtrip:
  assumes "hex64_lower s" and "hex64_lower c" and "0 < a" and "a \<le> MAX_SAFE_INTEGER"
    and "amount p = a"
  shows "parseTransferDetails (copyAllDetails formatSOL s c (Some p))
           = Inr \<lparr>secret_pt = s, commitment_pt = c, amount_pt = a\<rparr> \<and>
         (\<forall>pre post. CHR '':'' \<notin> set pre \<longrightarrow>
            parseTransferDetails (pre @ copyAllDetails formatSOL s c (Some p) @ post)
            = Inr \<lparr>secret_pt = s, commitment_pt = c, amount_pt = a\<rparr>) \<and>
         (\<forall>t t'. map ascii_upper t = map ascii_upper t' \<longrightarrow>
            parseTransferDetails t = parseTransferDetails t') \<and>
         (\<forall>t d. parseTransferDetails t = Inr d \<longrightarrow>
            hex64_lower (secret_pt d) \<and> hex64_lower (commitment_pt d) \<and> 0 < amount_pt d)"
proof -
  have s: "length s = 64" "list_all isHexDigit s" "toLowerCase s = s"
    using assms(1) hex64_lower_hex hex64_lower_toLowerCase by simp_all
  have c: "length c = 64" "list_all isHexDigit c" "toLowerCase c = c"
    using assms(2) hex64_lower_hex hex64_lower_toLowerCase by simp_all
  have a: "amount p = int (nat a)" "0 < nat a" "int (nat a) = a"
    using assms(3,5) by simp_all
  have around: "parseTransferDetails (pre @ copyAllDetails formatSOL s c (Some p) @ post)
      = Inr \<lparr>secret_pt = s, commitment_pt = c, amount_pt = a\<rparr>"
    if "CHR '':'' \<notin> set pre" for pre post
    using parseTransferDetails_copyAllDetails [OF s(1,2) c(1,2) a(1,2) that, of formatSOL post]
    by (simp only: s(3) c(3) a(3))
  have alone: "parseTransferDetails (copyAllDetails formatSOL s c (Some p))
      = Inr \<lparr>secret_pt = s, commitment_pt = c, amount_pt = a\<rparr>"
    using around [of "[]" "[]"] by simp
  have ci: "parseTransferDetails t = parseTransferDetails t'"
    if "map ascii_upper t = map ascii_upper t'" for t t'
    using parseTransferDetails_upper [of t] parseTransferDetails_upper [of t'] that by simp
  have lower: "hex64_lower (secret_pt d) \<and> hex64_lower (commitment_pt d) \<and> 0 < amount_pt d"
    if "parseTransferDetails t = Inr d" for t d
  proof -
    from parseTransferDetails_Inr [OF that] obtain hs hc where
      h: "length hs = 64 \<and> list_all isHexDigit hs \<and> secret_pt d = toLowerCase hs \<and>
           length hc = 64 \<and> list_all isHexDigit hc \<and> commitment_pt d = toLowerCase hc \<and>
           0 < amount_pt d"
      by (elim exE)
    then show ?thesis
      by (simp add: toLowerCase_hex64_lower)
  qed
  show ?thesis
    by (intro conjI allI impI alone around ci lower)
qed

theorem parseTransferDetails_roundtrip_witness:
  "parseTransferDetails
     (copyAllDetails (\<lambda>lamports. ''1.0000'') (replicate 64 CHR ''a'') (replicate 64 CHR ''0'')
        (Some example_position))
   = Inr \<lparr>secret_pt = replicate 64 CHR ''a'', commitment_pt = replicate 64 CHR ''0'',
          amount_pt = 1000000000\<rparr> \<and>
   parseTransferDetails
     (''Hi Bob, here it is. '' @
      copyAllDetails (\<lambda>lamports. ''1.0000'') (replicate 64 CHR ''a'') (replicate 64 CHR ''0'')
        (Some example_position) @
      '' Secret: none, really. '')
   = Inr \<lparr>secret_pt = replicate 64 CHR ''a'', commitment_pt = replicate 64 CHR ''0'',
          amount_pt = 1000000000\<rparr>"
proof -
  have h: "hex64_lower (replicate 64 CHR ''a'')" "hex64_lower (replicate 64 CHR ''0'')"
    "(0::int) < 1000000000" "(1000000000::int) \<le> MAX_SAFE_INTEGER"
    "amount example_position = 1000000000"
    by (simp_all add: hex64_lower_def isLowerHexDigit_def list_all_iff MAX_SAFE_INTEGER_def
        example_position_def)
  note t = parseTransferDetails_roundtrip [OF h, of "\<lambda>lamports. ''1.0000''"]
  have nc: "CHR '':'' \<notin> set ''Hi Bob, here it is. ''" by simp
  from t [THEN conjunct1]
    t [THEN conjunct2, THEN conjunct1, THEN spec, THEN spec, THEN mp, OF nc,
      of "'' Secret: none, really. ''"]
  show ?thesis by (intro conjI)
qed

end
